theory Spec2Isabelle
  imports Main "HOL-Library.Word" "HOL-Library.AList"
begin

section \<open>Python values and exceptions\<close>

text \<open>
  The worker receives its job payload, the engine's websocket frames and the history record
  as decoded JSON, and inspects them dynamically. A JSON value is modelled as it arrives in
  Python: \<open>None\<close>, a bool, a number, a \<open>str\<close>, a \<open>list\<close> or a \<open>dict\<close> with string
  keys. A dict is an association list read with \<open>map_of\<close>. A JSON float behaves like an
  integer in every operation used below (it is not a container and has no \<open>get\<close>), so
  numbers are integers.
\<close>

datatype pyval =
    PNone
  | PBool bool
  | PInt int
  | PStr string
  | PList "pyval list"
  | PDict "(string \<times> pyval) list"

text \<open>
  Exceptions are values: a class and the text \<open>str(e)\<close> gives. The classes are the ones the
  handlers of \<open>handler.py\<close> tell apart, with Python's subclass relation written out.
\<close>

datatype exn_class =
    AttributeError
  | TypeError
  | KeyError
  | ValueError
  | JSONDecodeError
  | BinasciiError
  | RequestsTimeout
  | RequestException
  | WebSocketException
  | WebSocketTimeoutException
  | WebSocketConnectionClosedException
  | ConnectionRefusedError
  | SocketTimeout
  | OSError
  | OtherException

datatype exn = Exn exn_class string

fun exn_class_of :: "exn \<Rightarrow> exn_class" where
  "exn_class_of (Exn c m) = c"

fun str_of_exn :: "exn \<Rightarrow> string" where
  "str_of_exn (Exn c m) = m"

definition isa_RequestException :: "exn_class \<Rightarrow> bool" where
  "isa_RequestException c = (c = RequestException \<or> c = RequestsTimeout)"

definition isa_WebSocketException :: "exn_class \<Rightarrow> bool" where
  "isa_WebSocketException c =
     (c = WebSocketException \<or> c = WebSocketTimeoutException
      \<or> c = WebSocketConnectionClosedException)"

definition isa_ValueError :: "exn_class \<Rightarrow> bool" where
  "isa_ValueError c = (c = ValueError \<or> c = JSONDecodeError \<or> c = BinasciiError)"

definition isa_OSError :: "exn_class \<Rightarrow> bool" where
  "isa_OSError c =
     (c = OSError \<or> c = ConnectionRefusedError \<or> c = SocketTimeout
      \<or> c = RequestException \<or> c = RequestsTimeout)"

subsection \<open>The dynamic operations the worker uses\<close>

text \<open>\<open>obj.get(key)\<close>: only a dict has the method.\<close>

definition py_get :: "pyval \<Rightarrow> string \<Rightarrow> exn + pyval" where
  "py_get obj k =
     (case obj of
        PDict d \<Rightarrow> Inr (case map_of d k of None \<Rightarrow> PNone | Some v \<Rightarrow> v)
      | _ \<Rightarrow> Inl (Exn AttributeError ''object has no attribute get''))"

text \<open>\<open>obj.get(key, default)\<close>.\<close>

definition py_get_default :: "pyval \<Rightarrow> string \<Rightarrow> pyval \<Rightarrow> exn + pyval" where
  "py_get_default obj k dflt =
     (case obj of
        PDict d \<Rightarrow> Inr (case map_of d k of None \<Rightarrow> dflt | Some v \<Rightarrow> v)
      | _ \<Rightarrow> Inl (Exn AttributeError ''object has no attribute get''))"

text \<open>\<open>obj[key]\<close> with a string key: a dict raises KeyError on a missing key, a string or a
  list wants an integer index, nothing else is subscriptable.\<close>

definition py_subscript :: "pyval \<Rightarrow> string \<Rightarrow> exn + pyval" where
  "py_subscript obj k =
     (case obj of
        PDict d \<Rightarrow> (case map_of d k of
                      None \<Rightarrow> Inl (Exn KeyError ([CHR 0x27] @ k @ [CHR 0x27]))
                    | Some v \<Rightarrow> Inr v)
      | PStr s \<Rightarrow> Inl (Exn TypeError ''string indices must be integers'')
      | PList xs \<Rightarrow> Inl (Exn TypeError ''list indices must be integers or slices, not str'')
      | _ \<Rightarrow> Inl (Exn TypeError ''object is not subscriptable''))"

text \<open>\<open>k in s\<close> on strings is the substring test.\<close>

fun is_substring :: "string \<Rightarrow> string \<Rightarrow> bool" where
  "is_substring k [] = (k = [])"
| "is_substring k (c # cs) = (take (length k) (c # cs) = k \<or> is_substring k cs)"

text \<open>\<open>key in obj\<close> with a string key: key membership on a dict, substring on a string,
  element membership on a list, TypeError on anything that is not a container.\<close>

definition py_contains :: "string \<Rightarrow> pyval \<Rightarrow> exn + bool" where
  "py_contains k obj =
     (case obj of
        PDict d \<Rightarrow> Inr (map_of d k \<noteq> None)
      | PStr s \<Rightarrow> Inr (is_substring k s)
      | PList xs \<Rightarrow> Inr (PStr k \<in> set xs)
      | _ \<Rightarrow> Inl (Exn TypeError ''argument is not iterable''))"

text \<open>Truthiness, as \<open>if x:\<close> and \<open>not x\<close> read it.\<close>

fun py_truthy :: "pyval \<Rightarrow> bool" where
  "py_truthy PNone = False"
| "py_truthy (PBool b) = b"
| "py_truthy (PInt i) = (i \<noteq> 0)"
| "py_truthy (PStr s) = (s \<noteq> [])"
| "py_truthy (PList xs) = (xs \<noteq> [])"
| "py_truthy (PDict d) = (d \<noteq> [])"

text \<open>
  \<open>x == y\<close>. A bool equals the integer it stands for; otherwise two JSON values are equal
  when they are the same document.
\<close>

fun py_eq :: "pyval \<Rightarrow> pyval \<Rightarrow> bool" where
  "py_eq (PBool a) (PInt i) = ((if a then 1 else 0) = i)"
| "py_eq (PInt i) (PBool a) = (i = (if a then 1 else 0))"
| "py_eq x y = (x = y)"

definition unhashable :: exn where
  "unhashable = Exn TypeError ''unhashable type''"

text \<open>
  \<open>key in obj\<close> with any key. The keys of a decoded JSON object are strings, so no other
  hashable key is found in it; a list or a dict as key is unhashable.
\<close>

definition py_in :: "pyval \<Rightarrow> pyval \<Rightarrow> exn + bool" where
  "py_in key obj =
     (case obj of
        PDict d \<Rightarrow>
          (case key of
             PStr k \<Rightarrow> Inr (map_of d k \<noteq> None)
           | PList xs \<Rightarrow> Inl unhashable
           | PDict d' \<Rightarrow> Inl unhashable
           | _ \<Rightarrow> Inr False)
      | PStr s \<Rightarrow>
          (case key of
             PStr k \<Rightarrow> Inr (is_substring k s)
           | _ \<Rightarrow> Inl (Exn TypeError ''in string requires string as left operand''))
      | PList xs \<Rightarrow> Inr (list_ex (py_eq key) xs)
      | _ \<Rightarrow> Inl (Exn TypeError ''argument is not iterable''))"

text \<open>\<open>obj.get(key, default)\<close> with any key.\<close>

definition py_get_key :: "pyval \<Rightarrow> pyval \<Rightarrow> pyval \<Rightarrow> exn + pyval" where
  "py_get_key obj key dflt =
     (case obj of
        PDict d \<Rightarrow>
          (case key of
             PStr k \<Rightarrow> Inr (case map_of d k of None \<Rightarrow> dflt | Some v \<Rightarrow> v)
           | PList xs \<Rightarrow> Inl unhashable
           | PDict d' \<Rightarrow> Inl unhashable
           | _ \<Rightarrow> Inr dflt)
      | _ \<Rightarrow> Inl (Exn AttributeError ''object has no attribute get''))"

text \<open>\<open>len(obj)\<close>, \<open>for x in obj\<close>, \<open>obj.items()\<close> and \<open>obj.keys()\<close>. A dict holds each
  key once: the entry \<open>map_of\<close> reads.\<close>

definition py_len :: "pyval \<Rightarrow> exn + nat" where
  "py_len obj =
     (case obj of
        PStr s \<Rightarrow> Inr (length s)
      | PList xs \<Rightarrow> Inr (length xs)
      | PDict d \<Rightarrow> Inr (length (AList.clearjunk d))
      | _ \<Rightarrow> Inl (Exn TypeError ''object has no len''))"

definition py_iter :: "pyval \<Rightarrow> exn + pyval list" where
  "py_iter obj =
     (case obj of
        PStr s \<Rightarrow> Inr (map (\<lambda>c. PStr [c]) s)
      | PList xs \<Rightarrow> Inr xs
      | PDict d \<Rightarrow> Inr (map (\<lambda>kv. PStr (fst kv)) (AList.clearjunk d))
      | _ \<Rightarrow> Inl (Exn TypeError ''object is not iterable''))"

definition py_items :: "pyval \<Rightarrow> exn + (string \<times> pyval) list" where
  "py_items obj =
     (case obj of
        PDict d \<Rightarrow> Inr (AList.clearjunk d)
      | _ \<Rightarrow> Inl (Exn AttributeError ''object has no attribute items''))"

definition py_keys :: "pyval \<Rightarrow> exn + string list" where
  "py_keys obj =
     (case obj of
        PDict d \<Rightarrow> Inr (map fst (AList.clearjunk d))
      | _ \<Rightarrow> Inl (Exn AttributeError ''object has no attribute keys''))"

section \<open>Input validation\<close>

text \<open>
  \<open>all("name" in media and "media" in media for media in media_list)\<close>: the generator is
  consumed left to right, stops at the first element that fails the test, and an element that
  is not a container raises.
\<close>

fun all_name_media :: "pyval list \<Rightarrow> exn + bool" where
  "all_name_media [] = Inr True"
| "all_name_media (m # ms) =
     (case py_contains ''name'' m of
        Inl e \<Rightarrow> Inl e
      | Inr False \<Rightarrow> Inr False
      | Inr True \<Rightarrow>
          (case py_contains ''media'' m of
             Inl e \<Rightarrow> Inl e
           | Inr False \<Rightarrow> Inr False
           | Inr True \<Rightarrow> all_name_media ms))"

definition media_error :: string where
  "media_error = CHR 0x27 # ''media' must be a list of objects with 'name' and 'media' keys''"

text \<open>
  \<open>validate_input\<close>. \<open>json.loads\<close> is the standard library's parser: it is a parameter
  \<open>loads\<close>, with \<open>None\<close> for JSONDecodeError. The result is the pair
  \<open>(validated_data, error_message)\<close>, or the exception that escapes.
\<close>

definition validate_input ::
  "(string \<Rightarrow> pyval option) \<Rightarrow> pyval \<Rightarrow> exn + (pyval option \<times> string option)" where
  "validate_input loads job_input =
     (if job_input = PNone then Inr (None, Some ''Please provide input'')
      else
        (case (case job_input of
                 PStr s \<Rightarrow> loads s
               | _ \<Rightarrow> Some job_input) of
           None \<Rightarrow> Inr (None, Some ''Invalid JSON format in input'')
         | Some job_input' \<Rightarrow>
             (case py_get job_input' ''workflow'' of
                Inl e \<Rightarrow> Inl e
              | Inr workflow \<Rightarrow>
                  if workflow = PNone then Inr (None, Some ''Missing 'workflow' parameter'')
                  else
                    (case py_get job_input' ''media'' of
                       Inl e \<Rightarrow> Inl e
                     | Inr media_list \<Rightarrow>
                         if media_list \<noteq> PNone then
                           (case media_list of
                              PList ms \<Rightarrow>
                                (case all_name_media ms of
                                   Inl e \<Rightarrow> Inl e
                                 | Inr False \<Rightarrow> Inr (None, Some media_error)
                                 | Inr True \<Rightarrow>
                                     Inr (Some (PDict [(''workflow'', workflow),
                                                       (''media'', media_list)]), None))
                            | _ \<Rightarrow> Inr (None, Some media_error))
                         else
                           Inr (Some (PDict [(''workflow'', workflow),
                                             (''media'', media_list)]), None)))))"

section \<open>The engine as the worker sees it\<close>

text \<open>
  Everything outside the process is an oracle of the environment: the \<open>n\<close>-th HTTP GET of a
  URL, the \<open>n\<close>-th websocket handshake, and so on. The worker's own view of the network is a
  state: how many calls it has made, which websocket objects are connected, and a log of the
  calls in order. \<open>time.sleep\<close> and \<open>print\<close> change nothing that is observed here and
  are left out.
\<close>

type_synonym byte = "8 word"

datatype http_reply = Status int | HttpRaises exn

datatype net_event = HttpGet string | WsConnect string

record env =
  loads :: "string \<Rightarrow> pyval option"
  str_of :: "pyval \<Rightarrow> string"
  http_get :: "string \<Rightarrow> nat \<Rightarrow> http_reply"
  ws_connect :: "nat \<Rightarrow> exn option"
  web_get :: "nat \<Rightarrow> pyval \<Rightarrow> exn + byte list"
  s3_download :: "nat \<Rightarrow> pyval \<Rightarrow> exn + byte list"
  stage_upload :: "nat \<Rightarrow> pyval \<Rightarrow> byte list \<Rightarrow> exn option"
  client_id :: string
  reconnect_attempts :: int
  queue_workflow :: "pyval \<Rightarrow> string \<Rightarrow> exn + pyval"
  get_history :: "pyval \<Rightarrow> exn + pyval"
  fetch_image :: "nat \<Rightarrow> pyval \<Rightarrow> pyval \<Rightarrow> pyval \<Rightarrow> exn + byte list"
  splitext_ext :: "string \<Rightarrow> string"
  bucket_configured :: bool
  tmp_create :: "nat \<Rightarrow> exn option"
  tmp_write :: "nat \<Rightarrow> exn option"
  s3_client :: "exn option"
  s3_read :: "nat \<Rightarrow> exn option"
  s3_name :: "nat \<Rightarrow> string"
  s3_put :: "nat \<Rightarrow> string \<Rightarrow> exn option"
  s3_presign :: "nat \<Rightarrow> string \<Rightarrow> exn + string"

record net =
  http_count :: nat
  ws_count :: nat
  open_socks :: "nat set"
  net_log :: "net_event list"

definition COMFY_HOST :: string where
  "COMFY_HOST = ''127.0.0.1:8188''"

definition root_url :: string where
  "root_url = ''http://'' @ COMFY_HOST @ ''/''"

definition COMFY_API_AVAILABLE_MAX_RETRIES :: int where
  "COMFY_API_AVAILABLE_MAX_RETRIES = 500"

text \<open>One \<open>requests.get(url)\<close>: the call is counted and logged, the oracle answers.\<close>

definition do_http_get :: "env \<Rightarrow> string \<Rightarrow> net \<Rightarrow> http_reply \<times> net" where
  "do_http_get env url st =
     (http_get env url (http_count st),
      st\<lparr>http_count := Suc (http_count st), net_log := net_log st @ [HttpGet url]\<rparr>)"

text \<open>
  \<open>new_ws = websocket.WebSocket(); new_ws.connect(url)\<close>: the socket object is numbered by
  the handshake that creates it; it is connected exactly when the handshake succeeds.
\<close>

definition do_ws_connect :: "env \<Rightarrow> string \<Rightarrow> net \<Rightarrow> (exn + nat) \<times> net" where
  "do_ws_connect env url st =
     (let st' = st\<lparr>ws_count := Suc (ws_count st), net_log := net_log st @ [WsConnect url]\<rparr>
      in case ws_connect env (ws_count st) of
           None \<Rightarrow> (Inr (ws_count st), st'\<lparr>open_socks := insert (ws_count st) (open_socks st')\<rparr>)
         | Some e \<Rightarrow> (Inl e, st'))"

subsection \<open>check_server\<close>

text \<open>
  \<open>for i in range(retries)\<close>: a 200 returns True; another status, \<open>requests.Timeout\<close> and
  \<open>requests.RequestException\<close> go on to the next round; any other exception escapes.
\<close>

fun check_server_loop :: "env \<Rightarrow> string \<Rightarrow> nat \<Rightarrow> net \<Rightarrow> (exn + bool) \<times> net" where
  "check_server_loop env url 0 st = (Inr False, st)"
| "check_server_loop env url (Suc n) st =
     (case do_http_get env url st of
        (Status code, st') \<Rightarrow>
          if code = 200 then (Inr True, st') else check_server_loop env url n st'
      | (HttpRaises e, st') \<Rightarrow>
          if isa_RequestException (exn_class_of e) then check_server_loop env url n st'
          else (Inl e, st'))"

definition check_server :: "env \<Rightarrow> string \<Rightarrow> int \<Rightarrow> net \<Rightarrow> (exn + bool) \<times> net" where
  "check_server env url retries st = check_server_loop env url (nat retries) st"

subsection \<open>Reconnecting the websocket\<close>

text \<open>\<open>_comfy_server_status\<close>: reachable means status 200; every exception means not.\<close>

definition comfy_server_status :: "env \<Rightarrow> net \<Rightarrow> bool \<times> net" where
  "comfy_server_status env st =
     (case do_http_get env root_url st of
        (Status code, st') \<Rightarrow> (code = 200, st')
      | (HttpRaises e, st') \<Rightarrow> (False, st'))"

text \<open>The classes caught around \<open>new_ws.connect\<close>.\<close>

definition reconnect_catches :: "exn_class \<Rightarrow> bool" where
  "reconnect_catches c = (isa_WebSocketException c \<or> isa_OSError c)"

definition unreachable_error :: exn where
  "unreachable_error =
     Exn WebSocketConnectionClosedException
       ''ComfyUI HTTP unreachable during websocket reconnect''"

definition exhausted_error :: "exn \<Rightarrow> exn" where
  "exhausted_error last_reconnect_error =
     Exn WebSocketConnectionClosedException
       (''Connection closed and failed to reconnect. Last error: ''
        @ str_of_exn last_reconnect_error)"

text \<open>
  The body of \<open>for attempt in range(max_attempts)\<close>, by the number of rounds left, with
  \<open>last_reconnect_error\<close> carried along.
\<close>

fun reconnect_loop :: "env \<Rightarrow> string \<Rightarrow> nat \<Rightarrow> exn \<Rightarrow> net \<Rightarrow> (exn + nat) \<times> net" where
  "reconnect_loop env ws_url 0 last_error st = (Inl (exhausted_error last_error), st)"
| "reconnect_loop env ws_url (Suc n) last_error st =
     (case comfy_server_status env st of
        (False, st1) \<Rightarrow> (Inl unreachable_error, st1)
      | (True, st1) \<Rightarrow>
          (case do_ws_connect env ws_url st1 of
             (Inr new_ws, st2) \<Rightarrow> (Inr new_ws, st2)
           | (Inl reconn_err, st2) \<Rightarrow>
               if reconnect_catches (exn_class_of reconn_err)
               then reconnect_loop env ws_url n reconn_err st2
               else (Inl reconn_err, st2)))"

definition attempt_websocket_reconnect ::
  "env \<Rightarrow> string \<Rightarrow> int \<Rightarrow> exn \<Rightarrow> net \<Rightarrow> (exn + nat) \<times> net" where
  "attempt_websocket_reconnect env ws_url max_attempts initial_error st =
     reconnect_loop env ws_url (nat max_attempts) initial_error st"

section \<open>Base64\<close>

text \<open>
  \<open>base64.b64encode\<close> and \<open>base64.b64decode\<close> are the standard library's. The encoder is
  RFC 4648's: three bytes give four letters, a tail of one or two bytes is padded with \<open>=\<close>.
  The decoder is \<open>binascii.a2b_base64\<close> in its default, non-strict mode, as
  \<open>b64decode(s)\<close> calls it: a letter outside the alphabet is skipped, a complete pad sequence
  ends the input, and a quad left open at the end is an error. Shifts and masks on the six-bit
  values are written as multiplication, \<open>div\<close> and \<open>mod\<close>.
\<close>

definition b64_alphabet :: string where
  "b64_alphabet = ''ABCDEFGHIJKLMNOPQRSTUVWXYZabcdefghijklmnopqrstuvwxyz0123456789+/''"

definition b64_char :: "nat \<Rightarrow> char" where
  "b64_char n = b64_alphabet ! n"

fun index_of :: "'a \<Rightarrow> 'a list \<Rightarrow> nat option" where
  "index_of c [] = None"
| "index_of c (x # xs) = (if x = c then Some 0 else map_option Suc (index_of c xs))"

definition b64_index :: "char \<Rightarrow> nat option" where
  "b64_index c = index_of c b64_alphabet"

fun b64encode :: "byte list \<Rightarrow> string" where
  "b64encode [] = []"
| "b64encode [a] =
     [b64_char (unat a div 4), b64_char (unat a mod 4 * 16), CHR ''='', CHR ''='']"
| "b64encode [a, b] =
     [b64_char (unat a div 4), b64_char (unat a mod 4 * 16 + unat b div 16),
      b64_char (unat b mod 16 * 4), CHR ''='']"
| "b64encode (a # b # c # rest) =
     [b64_char (unat a div 4), b64_char (unat a mod 4 * 16 + unat b div 16),
      b64_char (unat b mod 16 * 4 + unat c div 64), b64_char (unat c mod 64)]
     @ b64encode rest"

definition incorrect_padding :: exn where
  "incorrect_padding = Exn BinasciiError ''Incorrect padding''"

definition bad_data_length :: exn where
  "bad_data_length =
     Exn BinasciiError
       ''Invalid base64-encoded string: number of data characters cannot be 1 more than a multiple of 4''"

text \<open>The decoder's loop: \<open>quad_pos\<close>, \<open>leftchar\<close> and \<open>pads\<close> are its three variables.\<close>

fun a2b_base64 :: "nat \<Rightarrow> nat \<Rightarrow> nat \<Rightarrow> string \<Rightarrow> byte list \<Rightarrow> exn + byte list" where
  "a2b_base64 quad_pos leftchar pads [] out =
     (if quad_pos = 0 then Inr out
      else if quad_pos = 1 then Inl bad_data_length
      else Inl incorrect_padding)"
| "a2b_base64 quad_pos leftchar pads (c # cs) out =
     (if c = CHR ''='' then
        (if 2 \<le> quad_pos \<and> 4 \<le> quad_pos + Suc pads then Inr out
         else a2b_base64 quad_pos leftchar (if 2 \<le> quad_pos then Suc pads else pads) cs out)
      else
        (case b64_index c of
           None \<Rightarrow> a2b_base64 quad_pos leftchar pads cs out
         | Some v \<Rightarrow>
             if quad_pos = 0 then a2b_base64 1 v 0 cs out
             else if quad_pos = 1 then
               a2b_base64 2 (v mod 16) 0 cs (out @ [of_nat (leftchar * 4 + v div 16)])
             else if quad_pos = 2 then
               a2b_base64 3 (v mod 4) 0 cs (out @ [of_nat (leftchar * 16 + v div 4)])
             else
               a2b_base64 0 0 0 cs (out @ [of_nat (leftchar * 64 + v)])))"

text \<open>\<open>base64.b64decode\<close> of a \<open>str\<close>: the string is first encoded as ASCII.\<close>

definition b64decode :: "string \<Rightarrow> exn + byte list" where
  "b64decode s =
     (if list_ex (\<lambda>c. 128 \<le> (of_char c :: nat)) s
      then Inl (Exn ValueError ''string argument should contain only ASCII characters'')
      else a2b_base64 0 0 0 s [])"

section \<open>Uploading the input media\<close>

text \<open>\<open>media_data.split(",", 1)[1]\<close> on a string that holds a comma.\<close>

definition after_first_comma :: "string \<Rightarrow> string" where
  "after_first_comma s = tl (dropWhile (\<lambda>c. c \<noteq> CHR '','') s)"

text \<open>
  The \<open>base64\<close> branch. \<open>"," in media_data\<close> raises on a value that is not a container;
  only a \<open>str\<close> has \<open>split\<close>; \<open>b64decode\<close> wants a string.
\<close>

definition decode_inline :: "pyval \<Rightarrow> exn + byte list" where
  "decode_inline media_data =
     (case py_contains '','' media_data of
        Inl e \<Rightarrow> Inl e
      | Inr has_comma \<Rightarrow>
          (case media_data of
             PStr s \<Rightarrow> b64decode (if has_comma then after_first_comma s else s)
           | _ \<Rightarrow>
               if has_comma then Inl (Exn AttributeError ''object has no attribute split'')
               else Inl (Exn TypeError
                      ''argument should be a bytes-like object or ASCII string'')))"

text \<open>
  The body of the \<open>try\<close> for one item, number \<open>i\<close> of the list. The three network calls are
  oracles: the download of a URL (with \<open>raise_for_status\<close>), the download of a key from the
  object store, and the staging POST (the MIME sniffing before it, the POST, and
  \<open>raise_for_status\<close>). The result is the item's name.
\<close>

definition upload_try :: "env \<Rightarrow> nat \<Rightarrow> pyval \<Rightarrow> exn + pyval" where
  "upload_try env i media =
     (case py_subscript media ''name'' of
        Inl e \<Rightarrow> Inl e
      | Inr name \<Rightarrow>
     (case py_subscript media ''media'' of
        Inl e \<Rightarrow> Inl e
      | Inr media_data \<Rightarrow>
     (case py_subscript media ''type'' of
        Inl e \<Rightarrow> Inl e
      | Inr media_type \<Rightarrow>
     (case (if media_type = PStr ''base64'' then decode_inline media_data
            else if media_type = PStr ''web'' then web_get env i media_data
            else if media_type = PStr ''s3'' then s3_download env i media_data
            else Inl (Exn OtherException (''Unknown media type '' @ str_of env media_type))) of
        Inl e \<Rightarrow> Inl e
      | Inr blob \<Rightarrow>
          (case stage_upload env i name blob of
             Some e \<Rightarrow> Inl e
           | None \<Rightarrow> Inr name)))))"

text \<open>
  The \<open>except\<close> clauses, in the source's order. Each builds its message from
  \<open>media.get('name', 'unknown')\<close>, which itself raises when the item is not a dict: that
  exception is raised inside the handler and leaves \<open>upload_media\<close>.
\<close>

definition upload_except :: "env \<Rightarrow> pyval \<Rightarrow> exn \<Rightarrow> exn + string" where
  "upload_except env media e =
     (case py_get_default media ''name'' (PStr ''unknown'') of
        Inl e' \<Rightarrow> Inl e'
      | Inr name \<Rightarrow>
          Inr (if exn_class_of e = BinasciiError then
                 ''Error decoding base64 for '' @ str_of env name @ '': '' @ str_of_exn e
               else if exn_class_of e = RequestsTimeout then
                 ''Timeout uploading '' @ str_of env name
               else if isa_RequestException (exn_class_of e) then
                 ''Error uploading '' @ str_of env name @ '': '' @ str_of_exn e
               else
                 ''Unexpected error uploading '' @ str_of env name @ '': '' @ str_of_exn e))"

text \<open>The loop over the items, with the two lists \<open>responses\<close> and \<open>upload_errors\<close>.\<close>

fun upload_loop ::
  "env \<Rightarrow> nat \<Rightarrow> pyval list \<Rightarrow> string list \<Rightarrow> string list \<Rightarrow> exn + (string list \<times> string list)"
where
  "upload_loop env i [] responses upload_errors = Inr (responses, upload_errors)"
| "upload_loop env i (media # rest) responses upload_errors =
     (case upload_try env i media of
        Inr name \<Rightarrow>
          upload_loop env (Suc i) rest
            (responses @ [''Successfully uploaded '' @ str_of env name]) upload_errors
      | Inl e \<Rightarrow>
          (case upload_except env media e of
             Inl e' \<Rightarrow> Inl e'
           | Inr error_msg \<Rightarrow>
               upload_loop env (Suc i) rest responses (upload_errors @ [error_msg])))"

definition upload_report :: "string \<Rightarrow> string \<Rightarrow> string list \<Rightarrow> pyval" where
  "upload_report status message details =
     PDict [(''status'', PStr status), (''message'', PStr message),
            (''details'', PList (map PStr details))]"

text \<open>\<open>upload_media\<close>: nothing to do on an empty list; the log line takes \<open>len\<close> of the
  list; then the loop and the report.\<close>

definition upload_media :: "env \<Rightarrow> pyval \<Rightarrow> exn + pyval" where
  "upload_media env media_list =
     (if \<not> py_truthy media_list then
        Inr (upload_report ''success'' ''No media to upload'' [])
      else
        (case py_len media_list of
           Inl e \<Rightarrow> Inl e
         | Inr n \<Rightarrow>
        (case py_iter media_list of
           Inl e \<Rightarrow> Inl e
         | Inr items \<Rightarrow>
        (case upload_loop env 0 items [] [] of
           Inl e \<Rightarrow> Inl e
         | Inr (responses, upload_errors) \<Rightarrow>
             if upload_errors \<noteq> [] then
               Inr (upload_report ''error'' ''Some media failed to upload'' upload_errors)
             else
               Inr (upload_report ''success'' ''All media uploaded successfully''
                      responses)))))"

section \<open>The handler\<close>

subsection \<open>Submitting the workflow\<close>

text \<open>
  \<open>queue_workflow\<close> is one POST and the formatting of the engine's answer into an exception
  text: it is an oracle that raises or returns the decoded response. The handler's \<open>try\<close>
  around it reads \<open>prompt_id\<close> and turns every exception into a ValueError.
\<close>

definition queue_phase :: "env \<Rightarrow> pyval \<Rightarrow> string \<Rightarrow> exn + pyval" where
  "queue_phase env workflow cid =
     (case (case queue_workflow env workflow cid of
              Inl e \<Rightarrow> Inl e
            | Inr queued_workflow \<Rightarrow>
                (case py_get queued_workflow ''prompt_id'' of
                   Inl e \<Rightarrow> Inl e
                 | Inr prompt_id \<Rightarrow>
                     if \<not> py_truthy prompt_id then
                       Inl (Exn ValueError (''Missing 'prompt_id' in queue response: ''
                                            @ str_of env queued_workflow))
                     else Inr prompt_id)) of
        Inr prompt_id \<Rightarrow> Inr prompt_id
      | Inl e \<Rightarrow>
          if isa_RequestException (exn_class_of e) then
            Inl (Exn ValueError (''Error queuing workflow: '' @ str_of_exn e))
          else if isa_ValueError (exn_class_of e) then Inl e
          else Inl (Exn ValueError (''Unexpected error queuing workflow: '' @ str_of_exn e)))"

subsection \<open>Monitoring the event stream\<close>

text \<open>What \<open>ws.recv()\<close> gives: a text frame, a binary frame, or an exception.\<close>

datatype recv = RecvStr string | RecvBytes | RecvRaises exn

text \<open>What one decoded message does to the loop.\<close>

datatype msg_action = KeepListening | Completed | Failed string

text \<open>The \<open>if\<close>/\<open>elif\<close> chain on \<open>message.get("type")\<close>; every \<open>get\<close> on a value that is
  not a dict raises, also the ones inside the log line of a \<open>status\<close> message.\<close>

definition handle_message :: "env \<Rightarrow> pyval \<Rightarrow> pyval \<Rightarrow> exn + msg_action" where
  "handle_message env prompt_id message =
     (case py_get message ''type'' of
        Inl e \<Rightarrow> Inl e
      | Inr ty \<Rightarrow>
          if ty = PStr ''status'' then
            (case py_get_default message ''data'' (PDict []) of
               Inl e \<Rightarrow> Inl e
             | Inr d \<Rightarrow>
            (case py_get_default d ''status'' (PDict []) of
               Inl e \<Rightarrow> Inl e
             | Inr status_data \<Rightarrow>
            (case py_get_default status_data ''exec_info'' (PDict []) of
               Inl e \<Rightarrow> Inl e
             | Inr exec_info \<Rightarrow>
            (case py_get_default exec_info ''queue_remaining'' (PStr ''N/A'') of
               Inl e \<Rightarrow> Inl e
             | Inr remaining \<Rightarrow> Inr KeepListening))))
          else if ty = PStr ''executing'' then
            (case py_get_default message ''data'' (PDict []) of
               Inl e \<Rightarrow> Inl e
             | Inr d \<Rightarrow>
            (case py_get d ''node'' of
               Inl e \<Rightarrow> Inl e
             | Inr node \<Rightarrow>
                 if node = PNone then
                   (case py_get d ''prompt_id'' of
                      Inl e \<Rightarrow> Inl e
                    | Inr p \<Rightarrow> if py_eq p prompt_id then Inr Completed else Inr KeepListening)
                 else Inr KeepListening))
          else if ty = PStr ''execution_error'' then
            (case py_get_default message ''data'' (PDict []) of
               Inl e \<Rightarrow> Inl e
             | Inr d \<Rightarrow>
            (case py_get d ''prompt_id'' of
               Inl e \<Rightarrow> Inl e
             | Inr p \<Rightarrow>
                 if py_eq p prompt_id then
                   (case py_get d ''node_type'' of
                      Inl e \<Rightarrow> Inl e
                    | Inr node_type \<Rightarrow>
                   (case py_get d ''node_id'' of
                      Inl e \<Rightarrow> Inl e
                    | Inr node_id \<Rightarrow>
                   (case py_get d ''exception_message'' of
                      Inl e \<Rightarrow> Inl e
                    | Inr exception_message \<Rightarrow>
                        Inr (Failed (''Workflow execution error: Node Type: ''
                                     @ str_of env node_type @ '', Node ID: ''
                                     @ str_of env node_id @ '', Message: ''
                                     @ str_of env exception_message)))))
                 else Inr KeepListening))
          else Inr KeepListening)"

text \<open>The body of the inner \<open>try\<close>: receive, decode when the frame is text, dispatch.\<close>

definition recv_body :: "env \<Rightarrow> pyval \<Rightarrow> recv \<Rightarrow> exn + msg_action" where
  "recv_body env prompt_id r =
     (case r of
        RecvRaises e \<Rightarrow> Inl e
      | RecvBytes \<Rightarrow> Inr KeepListening
      | RecvStr out \<Rightarrow>
          (case loads env out of
             None \<Rightarrow> Inl (Exn JSONDecodeError ''Expecting value'')
           | Some message \<Rightarrow> handle_message env prompt_id message))"

text \<open>
  The \<open>while True\<close> loop. One frame is received per round, so the loop is a recursion on the
  frames the engine will send; when they run out before the loop has ended, the handler is
  still blocked in \<open>recv\<close> and there is no result (\<open>None\<close>). The result of a run that ends is
  the exception that leaves the loop, or \<open>execution_done\<close> and \<open>errors\<close> at the \<open>break\<close>,
  with the socket held in \<open>ws\<close> and the network state.

  websocket-client closes a socket before it raises WebSocketConnectionClosedException from
  \<open>recv\<close>, so the socket held at that moment leaves the set of connected sockets.
\<close>

fun monitor_loop ::
  "env \<Rightarrow> string \<Rightarrow> pyval \<Rightarrow> recv list \<Rightarrow> nat \<Rightarrow> string list \<Rightarrow> net
   \<Rightarrow> ((exn + bool \<times> string list) \<times> nat \<times> net) option" where
  "monitor_loop env ws_url prompt_id [] ws errs st = None"
| "monitor_loop env ws_url prompt_id (r # rs) ws errs st =
     (case recv_body env prompt_id r of
        Inr KeepListening \<Rightarrow> monitor_loop env ws_url prompt_id rs ws errs st
      | Inr Completed \<Rightarrow> Some (Inr (True, errs), ws, st)
      | Inr (Failed error_details) \<Rightarrow> Some (Inr (False, errs @ [error_details]), ws, st)
      | Inl e \<Rightarrow>
          if exn_class_of e = WebSocketTimeoutException then
            monitor_loop env ws_url prompt_id rs ws errs st
          else if exn_class_of e = WebSocketConnectionClosedException then
            (case attempt_websocket_reconnect env ws_url (reconnect_attempts env) e
                    (st\<lparr>open_socks := open_socks st - {ws}\<rparr>) of
               (Inr new_ws, st') \<Rightarrow> monitor_loop env ws_url prompt_id rs new_ws errs st'
             | (Inl reconn_failed_err, st') \<Rightarrow> Some (Inl reconn_failed_err, ws, st'))
          else if exn_class_of e = JSONDecodeError then
            monitor_loop env ws_url prompt_id rs ws errs st
          else Some (Inl e, ws, st))"

definition incomplete_monitoring :: exn where
  "incomplete_monitoring =
     Exn ValueError
       ''Workflow monitoring loop exited without confirmation of completion or error.''"

text \<open>The check after the loop.\<close>

definition after_loop_check :: "bool \<Rightarrow> string list \<Rightarrow> exn + unit" where
  "after_loop_check execution_done errs =
     (if \<not> execution_done \<and> errs = [] then Inl incomplete_monitoring else Inr ())"

text \<open>The monitoring phase: the loop, then the check. \<open>errors\<close> is empty when it starts.\<close>

definition monitoring ::
  "env \<Rightarrow> string \<Rightarrow> pyval \<Rightarrow> recv list \<Rightarrow> nat \<Rightarrow> net
   \<Rightarrow> ((exn + string list) \<times> nat \<times> net) option" where
  "monitoring env ws_url prompt_id frames ws st =
     (case monitor_loop env ws_url prompt_id frames ws [] st of
        None \<Rightarrow> None
      | Some (Inl e, ws', st') \<Rightarrow> Some (Inl e, ws', st')
      | Some (Inr (execution_done, errs), ws', st') \<Rightarrow>
          (case after_loop_check execution_done errs of
             Inl e \<Rightarrow> Some (Inl e, ws', st')
           | Inr u \<Rightarrow> Some (Inr errs, ws', st')))"

subsection \<open>Collecting and publishing the artifacts\<close>

text \<open>
  The state of the collection loop: the two lists \<open>output_data\<close> and \<open>errors\<close>, the
  requests made to the \<open>/view\<close> endpoint (file name, subfolder, type), the temporary files
  on disk, the number of temporary files asked for and of uploads started, and the local
  variable \<open>temp_file_path\<close>, which is unbound until its first assignment and keeps its value
  from one artifact to the next. A temporary file is its number and its suffix.
\<close>

type_synonym tmp_path = "nat \<times> string"

record cstate =
  c_output :: "pyval list"
  c_errors :: "string list"
  c_fetches :: "(pyval \<times> pyval \<times> pyval) list"
  c_tmp_files :: "tmp_path set"
  c_tmp_count :: nat
  c_uploads :: nat
  c_temp_file_path :: "tmp_path option"

definition init_cstate :: "string list \<Rightarrow> cstate" where
  "init_cstate errs =
     \<lparr>c_output = [], c_errors = errs, c_fetches = [], c_tmp_files = {}, c_tmp_count = 0,
      c_uploads = 0, c_temp_file_path = None\<rparr>"

text \<open>\<open>get_image_data\<close>: the GET is logged; every exception gives \<open>None\<close>.\<close>

definition get_image_data ::
  "env \<Rightarrow> pyval \<Rightarrow> pyval \<Rightarrow> pyval \<Rightarrow> cstate \<Rightarrow> byte list option \<times> cstate" where
  "get_image_data env filename subfolder image_type cs =
     ((case fetch_image env (length (c_fetches cs)) filename subfolder image_type of
         Inl e \<Rightarrow> None
       | Inr content \<Rightarrow> Some content),
      cs\<lparr>c_fetches := c_fetches cs @ [(filename, subfolder, image_type)]\<rparr>)"

text \<open>
  \<open>boto_upload_media\<close>, upload number \<open>n\<close>: the client (an exception when a bucket variable
  is unset), reading the file back, \<open>put_object\<close>, the presigned URL. The extension of
  \<open>media_location\<close> is the suffix the temporary file was created with.
\<close>

definition boto_upload_media ::
  "env \<Rightarrow> nat \<Rightarrow> string \<Rightarrow> tmp_path \<Rightarrow> exn + (string \<times> string)" where
  "boto_upload_media env n job_id media_location =
     (case s3_client env of
        Some e \<Rightarrow> Inl e
      | None \<Rightarrow>
     (case s3_read env n of
        Some e \<Rightarrow> Inl e
      | None \<Rightarrow>
     (case s3_put env n (job_id @ ''/'' @ s3_name env n @ snd media_location) of
        Some e \<Rightarrow> Inl e
      | None \<Rightarrow>
     (case s3_presign env n (job_id @ ''/'' @ s3_name env n @ snd media_location) of
        Inl e \<Rightarrow> Inl e
      | Inr presigned_url \<Rightarrow>
          Inr (presigned_url, job_id @ ''/'' @ s3_name env n @ snd media_location)))))"

text \<open>
  The \<open>except Exception\<close> of the object-store path: the warning is recorded, and the file
  named by \<open>temp_file_path\<close> is removed when that variable is bound and the file exists.
\<close>

definition s3_except :: "env \<Rightarrow> pyval \<Rightarrow> exn \<Rightarrow> cstate \<Rightarrow> cstate" where
  "s3_except env filename e cs =
     (let cs' = cs\<lparr>c_errors := c_errors cs
                     @ [''Error uploading '' @ str_of env filename @ '' to S3: ''
                        @ str_of_exn e]\<rparr>
      in case c_temp_file_path cs' of
           None \<Rightarrow> cs'
         | Some path \<Rightarrow>
             if path \<in> c_tmp_files cs' then cs'\<lparr>c_tmp_files := c_tmp_files cs' - {path}\<rparr>
             else cs')"

text \<open>
  The object-store path for one artifact. \<open>NamedTemporaryFile(delete=False)\<close> either raises
  or leaves a file on disk; \<open>write\<close> may raise, and then the assignment to
  \<open>temp_file_path\<close> after it is not reached. \<open>os.remove\<close> of an existing file succeeds.
\<close>

definition publish_s3 ::
  "env \<Rightarrow> string \<Rightarrow> pyval \<Rightarrow> string \<Rightarrow> byte list \<Rightarrow> cstate \<Rightarrow> cstate" where
  "publish_s3 env job_id filename file_extension image_bytes cs =
     (case tmp_create env (c_tmp_count cs) of
        Some e \<Rightarrow> s3_except env filename e (cs\<lparr>c_tmp_count := Suc (c_tmp_count cs)\<rparr>)
      | None \<Rightarrow>
          (let temp_file = (c_tmp_count cs, file_extension);
               cs1 = cs\<lparr>c_tmp_count := Suc (c_tmp_count cs),
                        c_tmp_files := insert temp_file (c_tmp_files cs)\<rparr>
           in case tmp_write env (c_tmp_count cs) of
                Some e \<Rightarrow> s3_except env filename e cs1
              | None \<Rightarrow>
                  (let cs2 = cs1\<lparr>c_temp_file_path := Some temp_file,
                                 c_uploads := Suc (c_uploads cs1)\<rparr>
                   in case boto_upload_media env (c_uploads cs1) job_id temp_file of
                        Inl e \<Rightarrow> s3_except env filename e cs2
                      | Inr (s3_url, file_key) \<Rightarrow>
                          cs2\<lparr>c_tmp_files := c_tmp_files cs2 - {temp_file},
                              c_output := c_output cs2
                                @ [PDict [(''filename'', filename), (''type'', PStr ''s3_url''),
                                          (''data'', PStr s3_url),
                                          (''s3_file_key'', PStr file_key)]]\<rparr>)))"

text \<open>The inline path: the bytes go into the result as base64 text.\<close>

definition publish_inline :: "pyval \<Rightarrow> byte list \<Rightarrow> cstate \<Rightarrow> cstate" where
  "publish_inline filename image_bytes cs =
     cs\<lparr>c_output := c_output cs
          @ [PDict [(''filename'', filename), (''type'', PStr ''base64''),
                    (''data'', PStr (b64encode image_bytes))]]\<rparr>"

text \<open>\<open>os.path.splitext(filename)[1]\<close>: the library's function on a string, TypeError on
  anything else.\<close>

definition py_splitext :: "env \<Rightarrow> pyval \<Rightarrow> exn + string" where
  "py_splitext env filename =
     (case filename of
        PStr s \<Rightarrow> Inr (splitext_ext env s)
      | _ \<Rightarrow> Inl (Exn TypeError ''expected str, bytes or os.PathLike object''))"

text \<open>One artifact descriptor of a node's \<open>images\<close>. The exception, if any, is the one
  that leaves the loop; the state is the state at that moment.\<close>

definition process_image ::
  "env \<Rightarrow> string \<Rightarrow> string \<Rightarrow> pyval \<Rightarrow> cstate \<Rightarrow> exn option \<times> cstate" where
  "process_image env job_id node_id image_info cs =
     (case py_get image_info ''filename'' of
        Inl e \<Rightarrow> (Some e, cs)
      | Inr filename \<Rightarrow>
     (case py_get_default image_info ''subfolder'' (PStr []) of
        Inl e \<Rightarrow> (Some e, cs)
      | Inr subfolder \<Rightarrow>
     (case py_get image_info ''type'' of
        Inl e \<Rightarrow> (Some e, cs)
      | Inr img_type \<Rightarrow>
          if img_type = PStr ''temp'' then (None, cs)
          else if \<not> py_truthy filename then
            (None, cs\<lparr>c_errors := c_errors cs
                       @ [''Skipping image in node '' @ node_id
                          @ '' due to missing filename: '' @ str_of env image_info]\<rparr>)
          else
            (case get_image_data env filename subfolder img_type cs of
               (Some image_bytes, cs1) \<Rightarrow>
                 if image_bytes \<noteq> [] then
                   (case py_splitext env filename of
                      Inl e \<Rightarrow> (Some e, cs1)
                    | Inr ext \<Rightarrow>
                        if bucket_configured env then
                          (None, publish_s3 env job_id filename
                                   (if ext = [] then ''.bin'' else ext) image_bytes cs1)
                        else (None, publish_inline filename image_bytes cs1))
                 else
                   (None, cs1\<lparr>c_errors := c_errors cs1
                              @ [''Failed to fetch image data for '' @ str_of env filename
                                 @ '' from /view endpoint.'']\<rparr>)
             | (None, cs1) \<Rightarrow>
                 (None, cs1\<lparr>c_errors := c_errors cs1
                            @ [''Failed to fetch image data for '' @ str_of env filename
                               @ '' from /view endpoint.'']\<rparr>)))))"

fun process_images ::
  "env \<Rightarrow> string \<Rightarrow> string \<Rightarrow> pyval list \<Rightarrow> cstate \<Rightarrow> exn option \<times> cstate" where
  "process_images env job_id node_id [] cs = (None, cs)"
| "process_images env job_id node_id (image_info # rest) cs =
     (case process_image env job_id node_id image_info cs of
        (Some e, cs') \<Rightarrow> (Some e, cs')
      | (None, cs') \<Rightarrow> process_images env job_id node_id rest cs')"

text \<open>One node output: its images when it has any, then the list of its other keys (only
  printed, but \<open>keys()\<close> is called).\<close>

definition process_node ::
  "env \<Rightarrow> string \<Rightarrow> string \<Rightarrow> pyval \<Rightarrow> cstate \<Rightarrow> exn option \<times> cstate" where
  "process_node env job_id node_id node_output cs =
     (case py_contains ''images'' node_output of
        Inl e \<Rightarrow> (Some e, cs)
      | Inr has_images \<Rightarrow>
          (case (if has_images then
                   (case py_subscript node_output ''images'' of
                      Inl e \<Rightarrow> (Some e, cs)
                    | Inr images \<Rightarrow>
                        (case py_len images of
                           Inl e \<Rightarrow> (Some e, cs)
                         | Inr n \<Rightarrow>
                             (case py_iter images of
                                Inl e \<Rightarrow> (Some e, cs)
                              | Inr image_infos \<Rightarrow>
                                  process_images env job_id node_id image_infos cs)))
                 else (None, cs)) of
             (Some e, cs') \<Rightarrow> (Some e, cs')
           | (None, cs') \<Rightarrow>
               (case py_keys node_output of
                  Inl e \<Rightarrow> (Some e, cs')
                | Inr other_keys \<Rightarrow> (None, cs'))))"

fun process_outputs ::
  "env \<Rightarrow> string \<Rightarrow> (string \<times> pyval) list \<Rightarrow> cstate \<Rightarrow> exn option \<times> cstate" where
  "process_outputs env job_id [] cs = (None, cs)"
| "process_outputs env job_id ((node_id, node_output) # rest) cs =
     (case process_node env job_id node_id node_output cs of
        (Some e, cs') \<Rightarrow> (Some e, cs')
      | (None, cs') \<Rightarrow> process_outputs env job_id rest cs')"

text \<open>How the \<open>try\<close> block ends: a \<open>return\<close> inside it, an exception, or its last line.\<close>

datatype try_result = TryReturn pyval | TryRaise exn | TryEnd

text \<open>From the history request to the end of the \<open>try\<close> block.\<close>

definition collect_phase ::
  "env \<Rightarrow> string \<Rightarrow> pyval \<Rightarrow> string list \<Rightarrow> try_result \<times> cstate" where
  "collect_phase env job_id prompt_id errs =
     (case get_history env prompt_id of
        Inl e \<Rightarrow> (TryRaise e, init_cstate errs)
      | Inr history \<Rightarrow>
     (case py_in prompt_id history of
        Inl e \<Rightarrow> (TryRaise e, init_cstate errs)
      | Inr False \<Rightarrow>
          if errs = [] then
            (TryReturn (PDict [(''error'', PStr (''Prompt ID '' @ str_of env prompt_id
                                  @ '' not found in history after execution.''))]),
             init_cstate errs)
          else
            (TryReturn (PDict [(''error'',
                                PStr ''Job processing failed, prompt ID not found in history.''),
                               (''details'',
                                PList (map PStr (errs @ [''Prompt ID '' @ str_of env prompt_id
                                  @ '' not found in history after execution.''])))]),
             init_cstate (errs @ [''Prompt ID '' @ str_of env prompt_id
                                  @ '' not found in history after execution.'']))
      | Inr True \<Rightarrow>
     (case py_get_key history prompt_id (PDict []) of
        Inl e \<Rightarrow> (TryRaise e, init_cstate errs)
      | Inr prompt_history \<Rightarrow>
     (case py_get_default prompt_history ''outputs'' (PDict []) of
        Inl e \<Rightarrow> (TryRaise e, init_cstate errs)
      | Inr outputs \<Rightarrow>
          (let errs' = (if \<not> py_truthy outputs \<and> errs = []
                        then errs @ [''No outputs found in history for prompt ''
                                     @ str_of env prompt_id @ ''.'']
                        else errs)
           in case py_len outputs of
                Inl e \<Rightarrow> (TryRaise e, init_cstate errs')
              | Inr n \<Rightarrow>
                  (case py_items outputs of
                     Inl e \<Rightarrow> (TryRaise e, init_cstate errs')
                   | Inr items \<Rightarrow>
                       (case process_outputs env job_id items (init_cstate errs') of
                          (Some e, cs) \<Rightarrow> (TryRaise e, cs)
                        | (None, cs) \<Rightarrow> (TryEnd, cs))))))))"

subsection \<open>The whole handler\<close>

definition ws_url_of :: "string \<Rightarrow> string" where
  "ws_url_of cid = ''ws://'' @ COMFY_HOST @ ''/ws?clientId='' @ cid"

text \<open>
  The \<open>try\<close> block: connect, submit, monitor, collect. \<open>ws\<close> is assigned the new socket
  object before \<open>connect\<close> is called on it, so it is bound on every path.
\<close>

definition try_block ::
  "env \<Rightarrow> string \<Rightarrow> pyval \<Rightarrow> recv list \<Rightarrow> net \<Rightarrow> (try_result \<times> nat \<times> net \<times> cstate) option"
where
  "try_block env job_id workflow frames st =
     (case do_ws_connect env (ws_url_of (client_id env)) st of
        (Inl e, st1) \<Rightarrow> Some (TryRaise e, ws_count st, st1, init_cstate [])
      | (Inr ws, st1) \<Rightarrow>
     (case queue_phase env workflow (client_id env) of
        Inl e \<Rightarrow> Some (TryRaise e, ws, st1, init_cstate [])
      | Inr prompt_id \<Rightarrow>
     (case monitoring env (ws_url_of (client_id env)) prompt_id frames ws st1 of
        None \<Rightarrow> None
      | Some (Inl e, ws', st2) \<Rightarrow> Some (TryRaise e, ws', st2, init_cstate [])
      | Some (Inr errs, ws', st2) \<Rightarrow>
          (case collect_phase env job_id prompt_id errs of
             (res, cs) \<Rightarrow> Some (res, ws', st2, cs)))))"

text \<open>The four \<open>except\<close> clauses of the \<open>try\<close> block, in order.\<close>

definition handler_except :: "exn \<Rightarrow> pyval" where
  "handler_except e =
     (if isa_WebSocketException (exn_class_of e) then
        PDict [(''error'', PStr (''WebSocket communication error: '' @ str_of_exn e))]
      else if isa_RequestException (exn_class_of e) then
        PDict [(''error'', PStr (''HTTP communication error with ComfyUI: '' @ str_of_exn e))]
      else if isa_ValueError (exn_class_of e) then
        PDict [(''error'', PStr (str_of_exn e))]
      else
        PDict [(''error'', PStr (''An unexpected error occurred: '' @ str_of_exn e))])"

text \<open>\<open>finally: if ws and ws.connected: ws.close()\<close>.\<close>

definition finally_close :: "nat \<Rightarrow> net \<Rightarrow> net" where
  "finally_close ws st =
     (if ws \<in> open_socks st then st\<lparr>open_socks := open_socks st - {ws}\<rparr> else st)"

text \<open>The assembly of the result after the \<open>try\<close> statement.\<close>

definition assemble :: "pyval list \<Rightarrow> string list \<Rightarrow> pyval" where
  "assemble output_data errs =
     (let final_result =
            (if output_data \<noteq> [] then [(''media'', PList output_data)] else [])
            @ (if errs \<noteq> [] then [(''errors'', PList (map PStr errs))] else [])
      in if output_data = [] \<and> errs \<noteq> [] then
           PDict [(''error'', PStr ''Job processing failed''),
                  (''details'', PList (map PStr errs))]
         else if output_data = [] \<and> errs = [] then
           PDict (final_result @ [(''status'', PStr ''success_no_media''),
                                  (''media'', PList [])])
         else PDict final_result)"

text \<open>The part of the handler from the websocket on: \<open>try\<close>, \<open>except\<close>, \<open>finally\<close>,
  assembly.\<close>

definition run_job ::
  "env \<Rightarrow> string \<Rightarrow> pyval \<Rightarrow> recv list \<Rightarrow> net \<Rightarrow> (pyval \<times> net \<times> cstate) option" where
  "run_job env job_id workflow frames st =
     (case try_block env job_id workflow frames st of
        None \<Rightarrow> None
      | Some (res, ws, st', cs) \<Rightarrow>
          Some ((case res of
                   TryReturn v \<Rightarrow> v
                 | TryRaise e \<Rightarrow> handler_except e
                 | TryEnd \<Rightarrow> assemble (c_output cs) (c_errors cs)),
                finally_close ws st', cs))"

definition unreachable_result :: pyval where
  "unreachable_result =
     PDict [(''error'', PStr (''ComfyUI server ('' @ COMFY_HOST
                               @ '') not reachable after multiple retries.''))]"

text \<open>
  \<open>handler\<close>, given the job's \<open>input\<close> and \<open>id\<close> and the frames the engine will send. The
  result is the returned dict or the exception that leaves the handler, the network state and
  the collection state at that moment; \<open>None\<close> when the monitoring loop does not end on
  these frames.
\<close>

definition handler ::
  "env \<Rightarrow> string \<Rightarrow> pyval \<Rightarrow> recv list \<Rightarrow> net \<Rightarrow> ((exn + pyval) \<times> net \<times> cstate) option"
where
  "handler env job_id job_input frames st =
     (case validate_input (loads env) job_input of
        Inl e \<Rightarrow> Some (Inl e, st, init_cstate [])
      | Inr (validated_data, Some error_message) \<Rightarrow>
          Some (Inr (PDict [(''error'', PStr error_message)]), st, init_cstate [])
      | Inr (None, None) \<Rightarrow>
          Some (Inl (Exn TypeError ''object is not subscriptable''), st, init_cstate [])
      | Inr (Some validated, None) \<Rightarrow>
     (case py_subscript validated ''workflow'' of
        Inl e \<Rightarrow> Some (Inl e, st, init_cstate [])
      | Inr workflow \<Rightarrow>
     (case py_get validated ''media'' of
        Inl e \<Rightarrow> Some (Inl e, st, init_cstate [])
      | Inr input_media \<Rightarrow>
     (case check_server env root_url COMFY_API_AVAILABLE_MAX_RETRIES st of
        (Inl e, st1) \<Rightarrow> Some (Inl e, st1, init_cstate [])
      | (Inr False, st1) \<Rightarrow> Some (Inr unreachable_result, st1, init_cstate [])
      | (Inr True, st1) \<Rightarrow>
     (case (if py_truthy input_media then
              (case upload_media env input_media of
                 Inl e \<Rightarrow> Inl e
               | Inr upload_result \<Rightarrow>
                   (case py_subscript upload_result ''status'' of
                      Inl e \<Rightarrow> Inl e
                    | Inr status \<Rightarrow>
                        if status = PStr ''error'' then
                          (case py_subscript upload_result ''details'' of
                             Inl e \<Rightarrow> Inl e
                           | Inr details \<Rightarrow>
                               Inr (Some (PDict
                                 [(''error'',
                                   PStr ''Failed to upload one or more input media''),
                                  (''details'', details)])))
                        else Inr None))
            else Inr None) of
        Inl e \<Rightarrow> Some (Inl e, st1, init_cstate [])
      | Inr (Some early) \<Rightarrow> Some (Inr early, st1, init_cstate [])
      | Inr None \<Rightarrow>
          (case run_job env job_id workflow frames st1 of
             None \<Rightarrow> None
           | Some (res, st2, cs) \<Rightarrow> Some (Inr res, st2, cs)))))))"

section \<open>Vocabulary of the properties\<close>

text \<open>A reply of the root endpoint that \<open>check_server\<close> retries after: a status other
  than 200, or an exception of the \<open>requests\<close> library.\<close>

definition retryable_miss :: "http_reply \<Rightarrow> bool" where
  "retryable_miss r =
     (case r of
        Status code \<Rightarrow> code \<noteq> 200
      | HttpRaises e \<Rightarrow> isa_RequestException (exn_class_of e))"

text \<open>The \<open>n\<close>-th GET of the root endpoint answers 200.\<close>

definition probe_ok :: "env \<Rightarrow> nat \<Rightarrow> bool" where
  "probe_ok env n = (http_get env root_url n = Status 200)"

text \<open>The \<open>n\<close>-th handshake fails with an exception the reconnect loop catches.\<close>

definition handshake_fails :: "env \<Rightarrow> nat \<Rightarrow> bool" where
  "handshake_fails env n =
     (case ws_connect env n of
        None \<Rightarrow> False
      | Some e \<Rightarrow> reconnect_catches (exn_class_of e))"

text \<open>A log of reconnecting: every handshake uses the given URL and comes right after a
  probe of the root endpoint.\<close>

fun probed_handshakes :: "string \<Rightarrow> net_event list \<Rightarrow> bool" where
  "probed_handshakes url [] = True"
| "probed_handshakes url [HttpGet u] = (u = root_url)"
| "probed_handshakes url (HttpGet u # WsConnect u' # evs) =
     (u = root_url \<and> u' = url \<and> probed_handshakes url evs)"
| "probed_handshakes url (WsConnect u' # evs) = False"
| "probed_handshakes url (HttpGet u # HttpGet u' # evs) = False"

fun is_handshake :: "net_event \<Rightarrow> bool" where
  "is_handshake (WsConnect u) = True"
| "is_handshake (HttpGet u) = False"

text \<open>Every handshake in a log uses the given URL.\<close>

definition same_url :: "string \<Rightarrow> net_event list \<Rightarrow> bool" where
  "same_url url evs = (\<forall>ev \<in> set evs. is_handshake ev \<longrightarrow> ev = WsConnect url)"

text \<open>A result dict of the handler that reports a failure: it has an \<open>error\<close> entry.\<close>

definition is_error_result :: "pyval \<Rightarrow> bool" where
  "is_error_result r = (case r of PDict d \<Rightarrow> map_of d ''error'' \<noteq> None | _ \<Rightarrow> False)"



text \<open>An artifact descriptor of kind \<open>temp\<close>.\<close>

definition is_temp :: "pyval \<Rightarrow> bool" where
  "is_temp image_info = (py_get image_info ''type'' = Inr (PStr ''temp''))"

text \<open>A request to the \<open>/view\<close> endpoint for an artifact of kind \<open>temp\<close>.\<close>

fun temp_request :: "pyval \<times> pyval \<times> pyval \<Rightarrow> bool" where
  "temp_request (filename, subfolder, image_type) = (image_type = PStr ''temp'')"

text \<open>The requests to the \<open>/view\<close> endpoint grow from one state to the next, and none of the
  new ones asks for an artifact of kind \<open>temp\<close>.\<close>

definition fetches_extend :: "cstate \<Rightarrow> cstate \<Rightarrow> bool" where
  "fetches_extend cs cs' =
     (\<exists>new. c_fetches cs' = c_fetches cs @ new \<and> \<not> list_ex temp_request new)"

section \<open>A sample engine\<close>

text \<open>
  Concrete inputs on which the properties below are exercised: an engine that answers every
  call, knows one prompt \<open>p1\<close>, and has one node in its history with a final image and a
  preview of kind \<open>temp\<close>. Variations are record updates of it.
\<close>

definition sample_message :: "string \<Rightarrow> pyval option" where
  "sample_message out =
     (if out = ''finished'' then
        Some (PDict [(''type'', PStr ''executing''),
                     (''data'', PDict [(''node'', PNone), (''prompt_id'', PStr ''p1'')])])
      else if out = ''failed'' then
        Some (PDict [(''type'', PStr ''execution_error''),
                     (''data'', PDict [(''prompt_id'', PStr ''p1''),
                                       (''node_type'', PStr ''KSampler''),
                                       (''node_id'', PStr ''3''),
                                       (''exception_message'', PStr ''out of memory'')])])
      else if out = ''status'' then
        Some (PDict [(''type'', PStr ''status'')])
      else None)"

definition sample_history :: pyval where
  "sample_history =
     PDict [(''p1'',
             PDict [(''outputs'',
                     PDict [(''9'',
                             PDict [(''images'',
                                     PList [PDict [(''filename'', PStr ''a.png''),
                                                   (''subfolder'', PStr []),
                                                   (''type'', PStr ''output'')],
                                            PDict [(''filename'', PStr ''b.png''),
                                                   (''subfolder'', PStr []),
                                                   (''type'', PStr ''temp'')]])])])])]"

definition sample_str :: "pyval \<Rightarrow> string" where
  "sample_str v = (case v of PStr s \<Rightarrow> s | _ \<Rightarrow> ''?'')"

definition sample_env :: env where
  "sample_env =
     \<lparr>loads = sample_message,
      str_of = sample_str,
      http_get = (\<lambda>url n. Status 200),
      ws_connect = (\<lambda>n. None),
      web_get = (\<lambda>i url. Inr [1, 2]),
      s3_download = (\<lambda>i k. Inr [1, 2]),
      stage_upload = (\<lambda>i name blob. None),
      client_id = ''c1'',
      reconnect_attempts = 5,
      queue_workflow = (\<lambda>workflow cid. Inr (PDict [(''prompt_id'', PStr ''p1'')])),
      get_history = (\<lambda>prompt_id. Inr sample_history),
      fetch_image = (\<lambda>n filename subfolder image_type. Inr [1, 2, 3]),
      splitext_ext = (\<lambda>s. ''.png''),
      bucket_configured = False,
      tmp_create = (\<lambda>n. None),
      tmp_write = (\<lambda>n. None),
      s3_client = None,
      s3_read = (\<lambda>n. None),
      s3_name = (\<lambda>n. ''abcd1234''),
      s3_put = (\<lambda>n k. None),
      s3_presign = (\<lambda>n k. Inr (''https://bucket/'' @ k))\<rparr>"

definition net0 :: net where
  "net0 = \<lparr>http_count = 0, ws_count = 0, open_socks = {}, net_log = []\<rparr>"

definition sample_job :: pyval where
  "sample_job = PDict [(''workflow'', PDict [(''3'', PDict [])])]"

definition disk_full :: exn where
  "disk_full = Exn OSError ''No space left on device''"

definition closed_by_peer :: exn where
  "closed_by_peer = Exn WebSocketConnectionClosedException ''Connection to remote host was lost.''"


definition refused_http :: exn where
  "refused_http = Exn RequestException ''Connection refused''"

definition refused :: exn where
  "refused = Exn ConnectionRefusedError ''Connection refused''"

section \<open>Input validation: properties\<close>

lemma validate_input_rules:
  "validate_input ld PNone = Inr (None, Some ''Please provide input'')"
  "ld s = None \<Longrightarrow> validate_input ld (PStr s) = Inr (None, Some ''Invalid JSON format in input'')"
  "map_of d ''workflow'' = None \<or> map_of d ''workflow'' = Some PNone
   \<Longrightarrow> validate_input ld (PDict d) = Inr (None, Some ''Missing 'workflow' parameter'')"
  "map_of d ''workflow'' = Some w \<Longrightarrow> w \<noteq> PNone
   \<Longrightarrow> map_of d ''media'' = None \<or> map_of d ''media'' = Some PNone
   \<Longrightarrow> validate_input ld (PDict d)
       = Inr (Some (PDict [(''workflow'', w), (''media'', PNone)]), None)"
  "map_of d ''workflow'' = Some w \<Longrightarrow> w \<noteq> PNone \<Longrightarrow> map_of d ''media'' = Some m
   \<Longrightarrow> m \<noteq> PNone \<Longrightarrow> \<forall>ms. m \<noteq> PList ms
   \<Longrightarrow> validate_input ld (PDict d) = Inr (None, Some media_error)"
  by (auto simp: validate_input_def py_get_def split: pyval.splits)

lemma all_name_media_dicts:
  "\<forall>m \<in> set ms. \<exists>d. m = PDict d
   \<Longrightarrow> all_name_media ms
       = Inr (\<forall>m \<in> set ms. \<exists>d. m = PDict d \<and> map_of d ''name'' \<noteq> None
                                    \<and> map_of d ''media'' \<noteq> None)"
  by (induction ms) (auto simp: py_contains_def split: bool.splits)

lemma validate_input_media_dicts:
  assumes "map_of d ''workflow'' = Some w" "w \<noteq> PNone" "map_of d ''media'' = Some (PList ms)"
    and "\<forall>m \<in> set ms. \<exists>d. m = PDict d"
  shows "validate_input ld (PDict d)
       = (if \<forall>m \<in> set ms. \<exists>d. m = PDict d \<and> map_of d ''name'' \<noteq> None
                                     \<and> map_of d ''media'' \<noteq> None
          then Inr (Some (PDict [(''workflow'', w), (''media'', PList ms)]), None)
          else Inr (None, Some media_error))"
  using assms(1-3) all_name_media_dicts [OF assms(4)]
  by (simp add: validate_input_def py_get_def split: bool.splits)

text \<open>
  C1 (the code at the failing inputs). The claim is that \<open>validate_input\<close> returns a pair for
  every payload and never raises. On a payload that is a number, on a JSON string that decodes
  to a number, and on a media list with a number among its elements, the call raises instead
  (AttributeError from \<open>job_input.get\<close>, TypeError from \<open>"name" in media\<close>).
\<close>

theorem validate_input_raises_on_non_dict:
  "validate_input ld (PInt 42) = Inl (Exn AttributeError ''object has no attribute get'')
   \<and> validate_input (\<lambda>s. Some (PInt 42)) (PStr ''42'')
       = Inl (Exn AttributeError ''object has no attribute get'')
   \<and> validate_input ld (PDict [(''workflow'', PDict []), (''media'', PList [PInt 42])])
       = Inl (Exn TypeError ''argument is not iterable'')"
  by (simp add: validate_input_def py_get_def py_contains_def)

section \<open>Base64: encoding then decoding\<close>

lemma index_of_nth:
  "distinct xs \<Longrightarrow> n < length xs \<Longrightarrow> index_of (xs ! n) xs = Some n"
proof (induction xs arbitrary: n)
  case Nil
  then show ?case by simp
next
  case (Cons x xs)
  show ?case
  proof (cases n)
    case 0
    then show ?thesis by simp
  next
    case (Suc m)
    with Cons.prems have "xs ! m \<in> set xs" "x \<notin> set xs" "distinct xs" "m < length xs"
      by auto
    with Cons.IH Suc show ?thesis by auto
  qed
qed

lemma b64_alphabet_length: "length b64_alphabet = 64"
  by (simp add: b64_alphabet_def)

lemma b64_alphabet_distinct: "distinct b64_alphabet"
  by (simp add: b64_alphabet_def)

lemma b64_alphabet_no_pad: "CHR ''='' \<notin> set b64_alphabet"
  by (simp add: b64_alphabet_def)

lemma b64_alphabet_ascii: "\<forall>c \<in> set b64_alphabet. (of_char c :: nat) < 128"
  by (simp add: b64_alphabet_def)

lemma b64_index_char: "n < 64 \<Longrightarrow> b64_index (b64_char n) = Some n"
  by (simp add: b64_index_def b64_char_def index_of_nth b64_alphabet_distinct
      b64_alphabet_length)

lemma b64_char_in_alphabet: "n < 64 \<Longrightarrow> b64_char n \<in> set b64_alphabet"
  by (simp add: b64_char_def b64_alphabet_length)

lemma b64_char_not_pad: "n < 64 \<Longrightarrow> b64_char n \<noteq> CHR ''=''"
  using b64_alphabet_no_pad b64_char_in_alphabet by metis

lemma b64_char_ascii: "n < 64 \<Longrightarrow> (of_char (b64_char n) :: nat) < 128"
  using b64_alphabet_ascii b64_char_in_alphabet by blast

lemma unat_byte_less: "unat (a :: byte) < 256"
  using unsigned_less [of a] by simp

lemma a2b_step:
  "v < 64 \<Longrightarrow> a2b_base64 q l p (b64_char v # cs) out =
     (if q = 0 then a2b_base64 1 v 0 cs out
      else if q = 1 then a2b_base64 2 (v mod 16) 0 cs (out @ [of_nat (l * 4 + v div 16)])
      else if q = 2 then a2b_base64 3 (v mod 4) 0 cs (out @ [of_nat (l * 16 + v div 4)])
      else a2b_base64 0 0 0 cs (out @ [of_nat (l * 64 + v)]))"
  by (simp add: b64_index_char b64_char_not_pad)

lemma byte1: "of_nat (unat a div 4 * 4 + (unat a mod 4 * 16 + y div 16) div 16) = (a::byte)"
  if "y < 256" 
proof -
  have "(unat a mod 4 * 16 + y div 16) div 16 = unat a mod 4" using that by simp
  then show ?thesis by simp
qed

lemma byte2: "of_nat ((unat a mod 4 * 16 + unat b div 16) mod 16 * 16 + (unat b mod 16 * 4 + z div 64) div 4) = (b::byte)"
  if "z < 256"
proof -
  have "(unat a mod 4 * 16 + unat b div 16) mod 16 = unat b div 16"
    using unat_byte_less [of b] by simp
  moreover have "(unat b mod 16 * 4 + z div 64) div 4 = unat b mod 16" using that by simp
  ultimately show ?thesis by simp
qed

lemma byte3: "of_nat ((unat b mod 16 * 4 + unat c div 64) mod 4 * 64 + unat c mod 64) = (c::byte)"
proof -
  have "(unat b mod 16 * 4 + unat c div 64) mod 4 = unat c div 64"
    using unat_byte_less [of c] by simp
  then show ?thesis by simp
qed

lemma a2b_pad:
  "a2b_base64 q l p (CHR ''='' # cs) out =
     (if 2 \<le> q \<and> 4 \<le> q + Suc p then Inr out
      else a2b_base64 q l (if 2 \<le> q then Suc p else p) cs out)"
  by simp

lemma a2b_encode: "a2b_base64 0 l p (b64encode bs) out = Inr (out @ bs)"
proof (induction bs arbitrary: l p out rule: b64encode.induct)
  case 1
  then show ?case by simp
next
  case (2 a)
  have "unat a div 4 < 64" "unat a mod 4 * 16 < 64" using unat_byte_less [of a] by auto
  note st = this [THEN a2b_step]
  show ?case using byte1 [of 0 a]
    by (simp add: st a2b_pad del: a2b_base64.simps(2))
next
  case (3 a b)
  have "unat a div 4 < 64" "unat a mod 4 * 16 + unat b div 16 < 64" "unat b mod 16 * 4 < 64"
    using unat_byte_less [of a] unat_byte_less [of b] by auto
  note st = this [THEN a2b_step]
  show ?case using byte1 [of "unat b" a] byte2 [of 0 a b] unat_byte_less [of b]
    by (simp add: st a2b_pad del: a2b_base64.simps(2))
next
  case (4 a b c rest)
  have "unat a div 4 < 64" "unat a mod 4 * 16 + unat b div 16 < 64"
    "unat b mod 16 * 4 + unat c div 64 < 64" "unat c mod 64 < 64"
    using unat_byte_less [of a] unat_byte_less [of b] unat_byte_less [of c] by auto
  note st = this [THEN a2b_step]
  have "a2b_base64 0 l p (b64encode (a # b # c # rest)) out
        = a2b_base64 0 0 0 (b64encode rest) (out @ [a, b, c])"
    using byte1 [of "unat b" a] byte2 [of "unat c" a b] byte3 [of b c]
      unat_byte_less [of b] unat_byte_less [of c]
    by (simp add: st del: a2b_base64.simps(2))
  then show ?case using "4.IH" [of 0 0 "out @ [a, b, c]"] by simp
qed

lemma b64encode_ascii: "\<not> list_ex (\<lambda>c. 128 \<le> (of_char c :: nat)) (b64encode bs)"
proof (induction bs rule: b64encode.induct)
  case 1
  then show ?case by simp
next
  case (2 a)
  have "unat a div 4 < 64" "unat a mod 4 * 16 < 64" using unat_byte_less [of a] by auto
  then show ?case using b64_char_ascii by (simp add: not_le)
next
  case (3 a b)
  have "unat a div 4 < 64" "unat a mod 4 * 16 + unat b div 16 < 64" "unat b mod 16 * 4 < 64"
    using unat_byte_less [of a] unat_byte_less [of b] by auto
  then show ?case using b64_char_ascii by (simp add: not_le)
next
  case (4 a b c rest)
  have "unat a div 4 < 64" "unat a mod 4 * 16 + unat b div 16 < 64"
    "unat b mod 16 * 4 + unat c div 64 < 64" "unat c mod 64 < 64"
    using unat_byte_less [of a] unat_byte_less [of b] unat_byte_less [of c] by auto
  then show ?case using b64_char_ascii "4.IH" by (simp add: not_le)
qed

lemma b64decode_b64encode: "b64decode (b64encode bs) = Inr bs"
  using a2b_encode [of 0 0 bs "[]"] by (simp add: b64decode_def b64encode_ascii)


text \<open>
  C9. Publishing an artifact inline appends one item to the output media list; its
  \<open>data\<close> entry is a string, and decoding that string as base64 gives back exactly the bytes
  that were fetched, whatever they are.
\<close>

theorem inline_publish_roundtrip:
  "\<exists>payload. py_subscript (last (c_output (publish_inline filename image_bytes cs))) ''data''
               = Inr (PStr payload)
             \<and> b64decode payload = Inr image_bytes"
  by (simp add: publish_inline_def py_subscript_def b64decode_b64encode)

section \<open>The readiness probe\<close>

lemma check_server_loop_miss:
  "(\<And>i. i < n \<Longrightarrow> retryable_miss (http_get env url (http_count st + i)))
   \<Longrightarrow> check_server_loop env url n st
       = (Inr False, st\<lparr>http_count := http_count st + n,
                          net_log := net_log st @ replicate n (HttpGet url)\<rparr>)"
proof (induction n arbitrary: st)
  case 0
  then show ?case by simp
next
  case (Suc n)
  let ?st' = "st\<lparr>http_count := Suc (http_count st), net_log := net_log st @ [HttpGet url]\<rparr>"
  have first: "retryable_miss (http_get env url (http_count st))"
    using Suc.prems [of 0] by simp
  have rest: "retryable_miss (http_get env url (http_count ?st' + i))" if "i < n" for i
    using Suc.prems [of "Suc i"] that by simp
  have "check_server_loop env url (Suc n) st = check_server_loop env url n ?st'"
    using first
    by (auto simp: do_http_get_def retryable_miss_def split: http_reply.splits)
  also have "\<dots> = (Inr False, ?st'\<lparr>http_count := http_count ?st' + n,
                          net_log := net_log ?st' @ replicate n (HttpGet url)\<rparr>)"
    using Suc.IH [of ?st'] rest by blast
  finally show ?case by (simp add: replicate_app_Cons_same)
qed

lemma check_server_loop_ready:
  "k < n \<Longrightarrow> (\<And>i. i < k \<Longrightarrow> retryable_miss (http_get env url (http_count st + i)))
   \<Longrightarrow> http_get env url (http_count st + k) = Status 200
   \<Longrightarrow> check_server_loop env url n st
       = (Inr True, st\<lparr>http_count := http_count st + Suc k,
                         net_log := net_log st @ replicate (Suc k) (HttpGet url)\<rparr>)"
proof (induction n arbitrary: st k)
  case 0
  then show ?case by simp
next
  case (Suc n)
  let ?st' = "st\<lparr>http_count := Suc (http_count st), net_log := net_log st @ [HttpGet url]\<rparr>"
  show ?case
  proof (cases k)
    case 0
    with Suc.prems show ?thesis by (simp add: do_http_get_def)
  next
    case (Suc j)
    have first: "retryable_miss (http_get env url (http_count st))"
      using Suc.prems(2) [of 0] Suc by simp
    have rest: "retryable_miss (http_get env url (http_count ?st' + i))" if "i < j" for i
      using Suc.prems(2) [of "Suc i"] that Suc by simp
    have ready: "http_get env url (http_count ?st' + j) = Status 200"
      using Suc.prems(3) Suc by simp
    have "j < n" using Suc.prems(1) Suc by simp
    have "check_server_loop env url (Suc n) st = check_server_loop env url n ?st'"
      using first
      by (auto simp: do_http_get_def retryable_miss_def split: http_reply.splits)
    also have "\<dots> = (Inr True, ?st'\<lparr>http_count := http_count ?st' + Suc j,
                          net_log := net_log ?st' @ replicate (Suc j) (HttpGet url)\<rparr>)"
      using Suc.IH [of j ?st', OF \<open>j < n\<close> _ ready] rest by blast
    finally show ?thesis using Suc by (simp add: replicate_app_Cons_same)
  qed
qed

lemma check_server_loop_polls:
  "check_server_loop env url n st = (r, st')
   \<Longrightarrow> \<exists>m \<le> n. http_count st' = http_count st + m
              \<and> net_log st' = net_log st @ replicate m (HttpGet url)"
proof (induction n arbitrary: st)
  case 0
  then show ?case by simp
next
  case (Suc n)
  let ?st' = "st\<lparr>http_count := Suc (http_count st), net_log := net_log st @ [HttpGet url]\<rparr>"
  consider (stop) "st' = ?st'" | (go) "check_server_loop env url n ?st' = (r, st')"
    using Suc.prems
    by (auto simp: do_http_get_def split: http_reply.splits if_splits)
  then show ?case
  proof cases
    case stop
    then have "http_count st' = http_count st + 1 \<and> net_log st' = net_log st @ replicate 1 (HttpGet url)"
      by simp
    then show ?thesis by (metis Suc_le_mono le0 One_nat_def)
  next
    case go
    from Suc.IH [OF go] obtain m where "m \<le> n" "http_count st' = http_count ?st' + m"
      "net_log st' = net_log ?st' @ replicate m (HttpGet url)" by blast
    then have "Suc m \<le> Suc n \<and> http_count st' = http_count st + Suc m
               \<and> net_log st' = net_log st @ replicate (Suc m) (HttpGet url)"
      by (simp add: replicate_app_Cons_same)
    then show ?thesis by blast
  qed
qed

lemma validate_input_valid_shape:
  "validate_input ld job_input = Inr (Some v, None)
   \<Longrightarrow> \<exists>w m. v = PDict [(''workflow'', w), (''media'', m)]"
  by (auto simp: validate_input_def
      split: if_splits option.splits sum.splits pyval.splits bool.splits)

lemma handler_unreachable:
  assumes valid: "validate_input (loads env) job_input = Inr (Some v, None)"
    and miss: "\<And>i. i < 500 \<Longrightarrow> retryable_miss (http_get env root_url (http_count st + i))"
  shows "handler env job_id job_input frames st
         = Some (Inr unreachable_result,
                 st\<lparr>http_count := http_count st + 500,
                    net_log := net_log st @ replicate 500 (HttpGet root_url)\<rparr>,
                 init_cstate [])"
proof -
  from validate_input_valid_shape [OF valid] obtain w m
    where v: "v = PDict [(''workflow'', w), (''media'', m)]" by blast
  have "check_server env root_url COMFY_API_AVAILABLE_MAX_RETRIES st
        = (Inr False, st\<lparr>http_count := http_count st + 500,
                    net_log := net_log st @ replicate 500 (HttpGet root_url)\<rparr>)"
    using check_server_loop_miss [of 500 env root_url st] miss
    by (simp add: check_server_def COMFY_API_AVAILABLE_MAX_RETRIES_def)
  then show ?thesis
    by (simp add: handler_def valid v py_subscript_def py_get_def)
qed

text \<open>
  C7. \<open>check_server\<close> polls the endpoint at most \<open>retries\<close> times. When every poll is a
  retryable miss (a status other than 200, or an exception of the \<open>requests\<close> library) it
  returns False and raises nothing; when a poll answers 200 after misses only, the last
  permitted poll included, it returns True. In the handler, a job with a valid input whose
  500 polls all miss is answered with the error "ComfyUI server ... not reachable after
  multiple retries".
\<close>

theorem readiness_probe:
  "((\<forall>i < nat retries. retryable_miss (http_get env url (http_count st + i)))
      \<longrightarrow> fst (check_server env url retries st) = Inr False)
   \<and> (\<forall>k < nat retries.
         (\<forall>i < k. retryable_miss (http_get env url (http_count st + i)))
         \<and> http_get env url (http_count st + k) = Status 200
         \<longrightarrow> fst (check_server env url retries st) = Inr True)
   \<and> http_count (snd (check_server env url retries st)) \<le> http_count st + nat retries
   \<and> (validate_input (loads env) job_input = Inr (Some v, None)
       \<and> (\<forall>i < 500. retryable_miss (http_get env root_url (http_count st + i)))
      \<longrightarrow> (\<exists>st' cs. handler env job_id job_input frames st
                      = Some (Inr unreachable_result, st', cs)))"
proof (intro conjI impI allI)
  assume "\<forall>i < nat retries. retryable_miss (http_get env url (http_count st + i))"
  then show "fst (check_server env url retries st) = Inr False"
    using check_server_loop_miss [of "nat retries" env url st]
    by (simp add: check_server_def)
next
  fix k
  assume "k < nat retries"
    and "(\<forall>i < k. retryable_miss (http_get env url (http_count st + i)))
         \<and> http_get env url (http_count st + k) = Status 200"
  then show "fst (check_server env url retries st) = Inr True"
    using check_server_loop_ready [of k "nat retries" env url st]
    by (simp add: check_server_def)
next
  obtain r st' where run: "check_server_loop env url (nat retries) st = (r, st')"
    by (cases "check_server_loop env url (nat retries) st")
  from check_server_loop_polls [OF run]
  show "http_count (snd (check_server env url retries st)) \<le> http_count st + nat retries"
    using run by (auto simp: check_server_def)
next
  assume "validate_input (loads env) job_input = Inr (Some v, None)
       \<and> (\<forall>i < 500. retryable_miss (http_get env root_url (http_count st + i)))"
  then show "\<exists>st' cs. handler env job_id job_input frames st
                      = Some (Inr unreachable_result, st', cs)"
    using handler_unreachable [of env job_input v st job_id frames] by blast
qed

text \<open>The probe on an engine that is down, on one that comes up at the third poll, and the
  handler on the engine that is down.\<close>

theorem readiness_probe_witness:
  "fst (check_server (sample_env\<lparr>http_get := (\<lambda>url n. Status 503)\<rparr>) root_url 3 net0)
     = Inr False
   \<and> fst (check_server
            (sample_env\<lparr>http_get := (\<lambda>url n. if n < 2 then HttpRaises refused_http
                                               else Status 200)\<rparr>) root_url 3 net0)
     = Inr True
   \<and> (\<exists>st' cs. handler (sample_env\<lparr>http_get := (\<lambda>url n. Status 503)\<rparr>) ''job1'' sample_job
                  [] net0
                = Some (Inr unreachable_result, st', cs))"
proof -
  let ?down = "sample_env\<lparr>http_get := (\<lambda>url n. Status 503)\<rparr>"
  let ?slow = "sample_env\<lparr>http_get := (\<lambda>url n. if n < 2 then HttpRaises refused_http
                                               else Status 200)\<rparr>"
  have down: "\<forall>i < nat 3. retryable_miss (http_get ?down root_url (http_count net0 + i))"
    by (simp add: retryable_miss_def)
  have slow: "(2::nat) < nat 3
      \<and> (\<forall>i < 2. retryable_miss (http_get ?slow root_url (http_count net0 + i)))
      \<and> http_get ?slow root_url (http_count net0 + 2) = Status 200"
    by (simp add: retryable_miss_def net0_def refused_http_def isa_RequestException_def)
  have valid: "validate_input (loads ?down) sample_job
                 = Inr (Some (PDict [(''workflow'', PDict [(''3'', PDict [])]),
                                     (''media'', PNone)]), None)"
    by code_simp
  have down500: "\<forall>i < 500. retryable_miss (http_get ?down root_url (http_count net0 + i))"
    by (simp add: retryable_miss_def)
  from readiness_probe [of 3 "?down" root_url net0] down
  have 1: "fst (check_server ?down root_url 3 net0) = Inr False" by blast
  from readiness_probe [of 3 "?slow" root_url net0] slow
  have 2: "fst (check_server ?slow root_url 3 net0) = Inr True" by blast
  from readiness_probe [of 3 "?down" root_url net0 sample_job _ "''job1''" "[]"] valid down500
  have 3: "\<exists>st' cs. handler ?down ''job1'' sample_job [] net0
                = Some (Inr unreachable_result, st', cs)" by blast
  from 1 2 3 show ?thesis by blast
qed

section \<open>Reconnecting and monitoring\<close>

lemma comfy_server_status_eq:
  "comfy_server_status env st =
     (probe_ok env (http_count st),
      st\<lparr>http_count := Suc (http_count st), net_log := net_log st @ [HttpGet root_url]\<rparr>)"
  by (simp add: comfy_server_status_def do_http_get_def probe_ok_def split: http_reply.splits)

definition after_rounds :: "string \<Rightarrow> nat \<Rightarrow> net \<Rightarrow> net" where
  "after_rounds url k st =
     st\<lparr>http_count := http_count st + k, ws_count := ws_count st + k,
        net_log := net_log st @ concat (replicate k [HttpGet root_url, WsConnect url])\<rparr>"

lemma concat_replicate_snoc: "concat (replicate k xs) @ xs = xs @ concat (replicate k xs)"
  by (induction k) auto

lemma after_rounds_0: "after_rounds url 0 st = st"
  by (simp add: after_rounds_def)

lemma after_rounds_Suc:
  "after_rounds url k
     (st\<lparr>http_count := Suc (http_count st), ws_count := Suc (ws_count st),
         net_log := net_log st @ [HttpGet root_url, WsConnect url]\<rparr>)
   = after_rounds url (Suc k) st"
  by (simp add: after_rounds_def)

lemma reconnect_round_fails:
  assumes "probe_ok env (http_count st)" and "handshake_fails env (ws_count st)"
  shows "\<exists>e. reconnect_loop env url (Suc n) last_error st
             = reconnect_loop env url n e (after_rounds url 1 st)"
proof -
  from assms(2) obtain e where e: "ws_connect env (ws_count st) = Some e"
    "reconnect_catches (exn_class_of e)"
    by (auto simp: handshake_fails_def split: option.splits)
  have "reconnect_loop env url (Suc n) last_error st
        = reconnect_loop env url n e (after_rounds url 1 st)"
    using assms(1) e
    by (simp add: comfy_server_status_eq do_ws_connect_def after_rounds_def)
  then show ?thesis by blast
qed

lemma reconnect_loop_skip:
  "k \<le> n \<Longrightarrow>
   (\<And>i. i < k \<Longrightarrow> probe_ok env (http_count st + i) \<and> handshake_fails env (ws_count st + i))
   \<Longrightarrow> \<exists>e. reconnect_loop env url n last_error st
             = reconnect_loop env url (n - k) e (after_rounds url k st)"
proof (induction k arbitrary: n st last_error)
  case 0
  then show ?case by (auto simp: after_rounds_0)
next
  case (Suc k)
  then obtain n' where n: "n = Suc n'" "k \<le> n'" by (cases n) auto
  have "probe_ok env (http_count st)" "handshake_fails env (ws_count st)"
    using Suc.prems(2) [of 0] by auto
  from reconnect_round_fails [OF this, of url n' last_error]
  obtain e where e: "reconnect_loop env url (Suc n') last_error st
             = reconnect_loop env url n' e (after_rounds url 1 st)" by blast
  have "probe_ok env (http_count (after_rounds url 1 st) + i)
        \<and> handshake_fails env (ws_count (after_rounds url 1 st) + i)" if "i < k" for i
    using Suc.prems(2) [of "Suc i"] that by (simp add: after_rounds_def)
  from Suc.IH [of n' "after_rounds url 1 st" e, OF n(2) this]
  obtain e' where "reconnect_loop env url n' e (after_rounds url 1 st)
             = reconnect_loop env url (n' - k) e' (after_rounds url k (after_rounds url 1 st))"
    by blast
  moreover have "after_rounds url k (after_rounds url 1 st) = after_rounds url (Suc k) st"
    by (simp add: after_rounds_def)
  ultimately show ?case using e n by auto
qed

lemma reconnect_exhausted:
  assumes "\<And>i. i < n \<Longrightarrow> probe_ok env (http_count st + i) \<and> handshake_fails env (ws_count st + i)"
  shows "\<exists>e. reconnect_loop env url n last_error st
             = (Inl (exhausted_error e), after_rounds url n st)"
  using reconnect_loop_skip [of n n env st url last_error] assms by auto

lemma reconnect_abandoned:
  assumes "k < n"
    and "\<And>i. i < k \<Longrightarrow> probe_ok env (http_count st + i) \<and> handshake_fails env (ws_count st + i)"
    and "\<not> probe_ok env (http_count st + k)"
  shows "reconnect_loop env url n last_error st
         = (Inl unreachable_error,
            (after_rounds url k st)\<lparr>http_count := Suc (http_count st + k),
               net_log := net_log (after_rounds url k st) @ [HttpGet root_url]\<rparr>)"
proof -
  from assms(1) obtain m where m: "n - k = Suc m" by (cases "n - k") auto
  from reconnect_loop_skip [of k n env st url last_error] assms(1,2)
  obtain e where "reconnect_loop env url n last_error st
             = reconnect_loop env url (n - k) e (after_rounds url k st)" by auto
  then show ?thesis using assms(3) m
    by (simp add: comfy_server_status_eq after_rounds_def)
qed

lemma reconnect_succeeds:
  assumes "k < n"
    and "\<And>i. i < k \<Longrightarrow> probe_ok env (http_count st + i) \<and> handshake_fails env (ws_count st + i)"
    and "probe_ok env (http_count st + k)"
    and "ws_connect env (ws_count st + k) = None"
  shows "reconnect_loop env url n last_error st
         = (Inr (ws_count st + k),
            (after_rounds url (Suc k) st)\<lparr>open_socks := insert (ws_count st + k) (open_socks st)\<rparr>)"
proof -
  from assms(1) obtain m where m: "n - k = Suc m" by (cases "n - k") auto
  from reconnect_loop_skip [of k n env st url last_error] assms(1,2)
  obtain e where "reconnect_loop env url n last_error st
             = reconnect_loop env url (n - k) e (after_rounds url k st)" by auto
  then show ?thesis using assms(3,4) m concat_replicate_snoc [of k "[HttpGet root_url, WsConnect url]"]
    by (simp add: comfy_server_status_eq do_ws_connect_def after_rounds_def)
qed

lemma reconnect_loop_log:
  "reconnect_loop env url n last_error st = (r, st')
   \<Longrightarrow> \<exists>evs. net_log st' = net_log st @ evs \<and> probed_handshakes url evs
             \<and> length (filter is_handshake evs) \<le> n
             \<and> ws_count st' = ws_count st + length (filter is_handshake evs)"
proof (induction n arbitrary: st last_error)
  case 0
  then show ?case by auto
next
  case (Suc n)
  let ?st1 = "st\<lparr>http_count := Suc (http_count st), net_log := net_log st @ [HttpGet root_url]\<rparr>"
  let ?st2 = "?st1\<lparr>ws_count := Suc (ws_count st), net_log := net_log ?st1 @ [WsConnect url]\<rparr>"
  consider (probe) "st' = ?st1"
    | (shake) "st' = ?st2 \<or> st' = ?st2\<lparr>open_socks := insert (ws_count st) (open_socks st)\<rparr>"
    | (go) e where "reconnect_loop env url n e ?st2 = (r, st')"
    using Suc.prems
    by (auto simp: comfy_server_status_eq do_ws_connect_def Let_def
        split: if_splits option.splits bool.splits)
  then show ?case
  proof cases
    case probe
    then have "net_log st' = net_log st @ [HttpGet root_url] \<and> probed_handshakes url [HttpGet root_url]
       \<and> length (filter is_handshake [HttpGet root_url]) \<le> Suc n
       \<and> ws_count st' = ws_count st + length (filter is_handshake [HttpGet root_url])"
      by simp
    then show ?thesis by blast
  next
    case shake
    let ?evs = "[HttpGet root_url, WsConnect url]"
    from shake have "net_log st' = net_log st @ ?evs \<and> probed_handshakes url ?evs
       \<and> length (filter is_handshake ?evs) \<le> Suc n
       \<and> ws_count st' = ws_count st + length (filter is_handshake ?evs)"
      by auto
    then show ?thesis by blast
  next
    case go
    from Suc.IH [OF go] obtain evs where evs: "net_log st' = net_log ?st2 @ evs"
      "probed_handshakes url evs" "length (filter is_handshake evs) \<le> n"
      "ws_count st' = ws_count ?st2 + length (filter is_handshake evs)" by blast
    let ?evs = "HttpGet root_url # WsConnect url # evs"
    from evs have "net_log st' = net_log st @ ?evs \<and> probed_handshakes url ?evs
       \<and> length (filter is_handshake ?evs) \<le> Suc n
       \<and> ws_count st' = ws_count st + length (filter is_handshake ?evs)"
      by simp
    then show ?thesis by blast
  qed
qed



lemma probed_handshakes_url:
  "probed_handshakes url evs \<Longrightarrow> ev \<in> set evs \<Longrightarrow> is_handshake ev \<Longrightarrow> ev = WsConnect url"
  by (induction url evs rule: probed_handshakes.induct) auto

lemma monitor_loop_closed:
  assumes "exn_class_of closed_err = WebSocketConnectionClosedException"
  shows "monitor_loop env ws_url prompt_id (RecvRaises closed_err # frames) ws errs st =
     (case attempt_websocket_reconnect env ws_url (reconnect_attempts env) closed_err
             (st\<lparr>open_socks := open_socks st - {ws}\<rparr>) of
        (Inr new_ws, st') \<Rightarrow> monitor_loop env ws_url prompt_id frames new_ws errs st'
      | (Inl e, st') \<Rightarrow> Some (Inl e, ws, st'))"
  using assms by (simp add: recv_body_def split: prod.splits sum.splits)

lemma run_job_raise:
  "try_block env job_id workflow frames st = Some (TryRaise e, ws, st', cs)
   \<Longrightarrow> run_job env job_id workflow frames st
        = Some (handler_except e, finally_close ws st', cs)"
  by (simp add: run_job_def)

lemma connection_lost_is_error:
  "exn_class_of e = WebSocketConnectionClosedException \<Longrightarrow> is_error_result (handler_except e)"
  by (simp add: handler_except_def isa_WebSocketException_def is_error_result_def)

lemma reconnect_loop_socks:
  "reconnect_loop env url n last_error st = (r, st')
   \<Longrightarrow> open_socks st' = (case r of Inr w \<Rightarrow> insert w (open_socks st) | Inl e \<Rightarrow> open_socks st)"
proof (induction n arbitrary: st last_error)
  case 0
  then show ?case by auto
next
  case (Suc n)
  let ?st1 = "st\<lparr>http_count := Suc (http_count st), net_log := net_log st @ [HttpGet root_url]\<rparr>"
  let ?st2 = "?st1\<lparr>ws_count := Suc (ws_count st), net_log := net_log ?st1 @ [WsConnect url]\<rparr>"
  consider (probe) "st' = ?st1" "\<exists>e. r = Inl e"
    | (fail) "st' = ?st2" "\<exists>e. r = Inl e"
    | (ok) "st' = ?st2\<lparr>open_socks := insert (ws_count st) (open_socks st)\<rparr>" "r = Inr (ws_count st)"
    | (go) e where "reconnect_loop env url n e ?st2 = (r, st')"
    using Suc.prems
    by (auto simp: comfy_server_status_eq do_ws_connect_def Let_def
        split: if_splits option.splits bool.splits)
  then show ?case
  proof cases
    case go
    from Suc.IH [OF go] show ?thesis by (cases r) simp_all
  qed auto
qed

lemma monitor_loop_step_cases:
  assumes "monitor_loop env url pid (r # rs) ws errs st = Some res"
  obtains (continue) "monitor_loop env url pid rs ws errs st = Some res"
  | (completed) "recv_body env pid r = Inr Completed" "res = (Inr (True, errs), ws, st)"
  | (failed) m where "recv_body env pid r = Inr (Failed m)"
      "res = (Inr (False, errs @ [m]), ws, st)"
  | (raised) e where "res = (Inl e, ws, st)"
  | (reconnected) e new_ws st1 where
      "attempt_websocket_reconnect env url (reconnect_attempts env) e
         (st\<lparr>open_socks := open_socks st - {ws}\<rparr>) = (Inr new_ws, st1)"
      "monitor_loop env url pid rs new_ws errs st1 = Some res"
  | (lost) e e' st1 where
      "attempt_websocket_reconnect env url (reconnect_attempts env) e
         (st\<lparr>open_socks := open_socks st - {ws}\<rparr>) = (Inl e', st1)"
      "res = (Inl e', ws, st1)"
proof (cases "recv_body env pid r")
  case (Inr a)
  show ?thesis
  proof (cases a)
    case KeepListening
    with Inr assms continue show ?thesis by simp
  next
    case Completed
    with Inr assms completed show ?thesis by simp
  next
    case (Failed m)
    with Inr assms failed show ?thesis by simp
  qed
next
  case (Inl e)
  consider (timeout) "exn_class_of e = WebSocketTimeoutException"
    | (closed) "exn_class_of e = WebSocketConnectionClosedException"
    | (json) "exn_class_of e = JSONDecodeError"
    | (other) "exn_class_of e \<noteq> WebSocketTimeoutException"
        "exn_class_of e \<noteq> WebSocketConnectionClosedException"
        "exn_class_of e \<noteq> JSONDecodeError"
    by blast
  then show ?thesis
  proof cases
    case timeout
    with Inl assms continue show ?thesis by simp
  next
    case json
    with Inl assms continue show ?thesis by simp
  next
    case other
    with Inl assms have "res = (Inl e, ws, st)" by auto
    with raised show ?thesis by blast
  next
    case closed
    obtain c st1 where c: "attempt_websocket_reconnect env url (reconnect_attempts env) e
         (st\<lparr>open_socks := open_socks st - {ws}\<rparr>) = (c, st1)"
      by (cases "attempt_websocket_reconnect env url (reconnect_attempts env) e
         (st\<lparr>open_socks := open_socks st - {ws}\<rparr>)")
    show ?thesis
    proof (cases c)
      case new: (Inr new_ws)
      with Inl closed c assms have "monitor_loop env url pid rs new_ws errs st1 = Some res"
        by simp
      with c new reconnected show ?thesis by blast
    next
      case lst: (Inl e')
      with Inl closed c assms have "res = (Inl e', ws, st1)" by simp
      with c lst lost show ?thesis by blast
    qed
  qed
qed

lemma monitor_loop_socks:
  "monitor_loop env url pid frames ws errs st = Some (r, ws', st')
   \<Longrightarrow> open_socks st \<subseteq> {ws} \<Longrightarrow> open_socks st' \<subseteq> {ws'}"
proof (induction frames arbitrary: ws st)
  case Nil
  then show ?case by simp
next
  case (Cons f frames)
  from Cons.prems(1) show ?case
  proof (cases rule: monitor_loop_step_cases)
    case continue
    from Cons.IH [OF continue Cons.prems(2)] show ?thesis .
  next
    case completed
    with Cons.prems(2) show ?thesis by simp
  next
    case (failed m)
    with Cons.prems(2) show ?thesis by simp
  next
    case (raised e)
    with Cons.prems(2) show ?thesis by simp
  next
    case (reconnected e new_ws st1)
    from reconnect_loop_socks [of env url "nat (reconnect_attempts env)" e
        "st\<lparr>open_socks := open_socks st - {ws}\<rparr>" "Inr new_ws" st1] reconnected(1)
    have "open_socks st1 \<subseteq> {new_ws}" using Cons.prems(2)
      by (auto simp: attempt_websocket_reconnect_def)
    from Cons.IH [OF reconnected(2) this] show ?thesis .
  next
    case (lost e e' st1)
    from reconnect_loop_socks [of env url "nat (reconnect_attempts env)" e
        "st\<lparr>open_socks := open_socks st - {ws}\<rparr>" "Inl e'" st1] lost(1)
    have "open_socks st1 = {}" using Cons.prems(2)
      by (auto simp: attempt_websocket_reconnect_def)
    with lost(2) show ?thesis by simp
  qed
qed

lemma attempt_log:
  assumes "attempt_websocket_reconnect env url m e st0 = (r, st1)"
  shows "\<exists>evs. net_log st1 = net_log st0 @ evs \<and> same_url url evs"
proof -
  from reconnect_loop_log [of env url "nat m" e st0 r st1] assms
  obtain evs where "net_log st1 = net_log st0 @ evs" "probed_handshakes url evs"
    by (auto simp: attempt_websocket_reconnect_def)
  then show ?thesis using probed_handshakes_url [of url evs] by (auto simp: same_url_def)
qed

lemma monitor_loop_log:
  "monitor_loop env url pid frames ws errs st = Some (r, ws', st')
   \<Longrightarrow> \<exists>evs. net_log st' = net_log st @ evs \<and> same_url url evs"
proof (induction frames arbitrary: ws st)
  case Nil
  then show ?case by simp
next
  case (Cons f frames)
  from Cons.prems(1) show ?case
  proof (cases rule: monitor_loop_step_cases)
    case continue
    from Cons.IH [OF continue] show ?thesis .
  next
    case completed
    then have "net_log st' = net_log st @ [] \<and> same_url url []" by (simp add: same_url_def)
    then show ?thesis by blast
  next
    case (failed m)
    then have "net_log st' = net_log st @ [] \<and> same_url url []" by (simp add: same_url_def)
    then show ?thesis by blast
  next
    case (raised e)
    then have "net_log st' = net_log st @ [] \<and> same_url url []" by (simp add: same_url_def)
    then show ?thesis by blast
  next
    case (reconnected e new_ws st1)
    from attempt_log [OF reconnected(1)] obtain evs1
      where 1: "net_log st1 = net_log st @ evs1" "same_url url evs1" by auto
    from Cons.IH [OF reconnected(2)] obtain evs2
      where 2: "net_log st' = net_log st1 @ evs2" "same_url url evs2" by auto
    from 1 2 have "net_log st' = net_log st @ (evs1 @ evs2) \<and> same_url url (evs1 @ evs2)"
      by (auto simp: same_url_def)
    then show ?thesis by blast
  next
    case (lost e e' st1)
    from attempt_log [OF lost(1)] lost(2) show ?thesis by simp
  qed
qed


lemma monitoring_loop:
  "monitoring env url pid frames ws st = Some (r, ws', st')
   \<Longrightarrow> \<exists>r'. monitor_loop env url pid frames ws [] st = Some (r', ws', st')"
  by (auto simp: monitoring_def split: option.splits sum.splits prod.splits)

lemma try_block_cases:
  assumes "try_block env job_id workflow frames st = Some (res, ws, st', cs)"
  obtains (refused) e where
      "do_ws_connect env (ws_url_of (client_id env)) st = (Inl e, st')" "ws = ws_count st"
  | (queued) "do_ws_connect env (ws_url_of (client_id env)) st = (Inr ws, st')"
  | (monitored) ws0 st1 pid r where
      "do_ws_connect env (ws_url_of (client_id env)) st = (Inr ws0, st1)"
      "monitor_loop env (ws_url_of (client_id env)) pid frames ws0 [] st1 = Some (r, ws, st')"
proof -
  obtain c st1 where c: "do_ws_connect env (ws_url_of (client_id env)) st = (c, st1)"
    by (cases "do_ws_connect env (ws_url_of (client_id env)) st")
  show ?thesis
  proof (cases c)
    case (Inl e)
    with assms c refused show ?thesis by (auto simp: try_block_def)
  next
    case (Inr ws0)
    show ?thesis
    proof (cases "queue_phase env workflow (client_id env)")
      case (Inl e)
      with assms c Inr queued show ?thesis by (auto simp: try_block_def)
    next
      case pid: (Inr pid)
      from assms c Inr pid obtain r
        where "monitoring env (ws_url_of (client_id env)) pid frames ws0 st1 = Some (r, ws, st')"
        by (auto simp: try_block_def split: option.splits sum.splits prod.splits)
      from monitoring_loop [OF this] monitored c Inr show ?thesis by blast
    qed
  qed
qed

lemma do_ws_connect_facts:
  "do_ws_connect env url st = (c, st') \<Longrightarrow>
     net_log st' = net_log st @ [WsConnect url]
     \<and> open_socks st' = (case c of Inr w \<Rightarrow> insert w (open_socks st) | Inl e \<Rightarrow> open_socks st)
     \<and> (\<forall>w. c = Inr w \<longrightarrow> w = ws_count st)"
  by (auto simp: do_ws_connect_def Let_def split: option.splits)

lemma same_url_single: "same_url url [WsConnect url]"
  by (simp add: same_url_def)

lemma same_url_append: "same_url url xs \<Longrightarrow> same_url url ys \<Longrightarrow> same_url url (xs @ ys)"
  by (auto simp: same_url_def)

lemma try_block_socks:
  assumes "try_block env job_id workflow frames st = Some (res, ws, st', cs)"
    and "open_socks st = {}"
  shows "open_socks st' \<subseteq> {ws}"
  using assms(1)
proof (cases rule: try_block_cases)
  case (refused e)
  from do_ws_connect_facts [OF refused(1)] assms(2) show ?thesis by simp
next
  case queued
  from do_ws_connect_facts [OF queued] assms(2) show ?thesis by simp
next
  case (monitored ws0 st1 pid r)
  from do_ws_connect_facts [OF monitored(1)] assms(2) have "open_socks st1 \<subseteq> {ws0}" by simp
  from monitor_loop_socks [OF monitored(2) this] show ?thesis .
qed

lemma try_block_log:
  assumes "try_block env job_id workflow frames st = Some (res, ws, st', cs)"
  shows "\<exists>evs. net_log st' = net_log st @ evs \<and> same_url (ws_url_of (client_id env)) evs"
  using assms
proof (cases rule: try_block_cases)
  case (refused e)
  from do_ws_connect_facts [OF refused(1)] same_url_single show ?thesis by blast
next
  case queued
  from do_ws_connect_facts [OF queued] same_url_single show ?thesis by blast
next
  case (monitored ws0 st1 pid r)
  from monitor_loop_log [OF monitored(2)] obtain evs
    where "net_log st' = net_log st1 @ evs" "same_url (ws_url_of (client_id env)) evs" by blast
  with do_ws_connect_facts [OF monitored(1)]
  have "net_log st' = net_log st @ ([WsConnect (ws_url_of (client_id env))] @ evs)
        \<and> same_url (ws_url_of (client_id env)) ([WsConnect (ws_url_of (client_id env))] @ evs)"
    using same_url_append [OF same_url_single] by simp
  then show ?thesis by blast
qed

lemma run_job_cases:
  assumes "run_job env job_id workflow frames st = Some (r, st', cs)"
  obtains res ws st1 where "try_block env job_id workflow frames st = Some (res, ws, st1, cs)"
    "st' = finally_close ws st1"
  using assms by (auto simp: run_job_def split: option.splits prod.splits)

lemma run_job_socks:
  assumes "run_job env job_id workflow frames st = Some (r, st', cs)" and "open_socks st = {}"
  shows "open_socks st' = {}"
  using assms(1)
proof (cases rule: run_job_cases)
  case (1 res ws st1)
  from try_block_socks [OF 1(1) assms(2)] 1(2) show ?thesis
    by (auto simp: finally_close_def)
qed

lemma run_job_log:
  assumes "run_job env job_id workflow frames st = Some (r, st', cs)"
  shows "\<exists>evs. net_log st' = net_log st @ evs \<and> same_url (ws_url_of (client_id env)) evs"
  using assms
proof (cases rule: run_job_cases)
  case (1 res ws st1)
  from try_block_log [OF 1(1)] 1(2) show ?thesis by (simp add: finally_close_def)
qed

text \<open>
  C4. \<open>_attempt_websocket_reconnect\<close> makes at most \<open>max_attempts\<close> handshakes, each with
  the URL it was given and each right after a probe of the root endpoint. When a probe
  reports the engine unreachable, it raises WebSocketConnectionClosedException at once and
  makes no further handshake. When every round fails, it raises
  WebSocketConnectionClosedException. When a round succeeds, it returns the new socket,
  connected. In the handler, the monitoring loop calls it with its own URL on a disconnection,
  goes on listening on the new socket with the same prompt id when it succeeds, and lets the
  exception leave the loop when it fails; such an exception makes the job's result an error;
  and every handshake of a job uses the URL with the job's one client id.
\<close>

theorem websocket_reconnect_protocol:
  "(\<exists>evs. net_log (snd (attempt_websocket_reconnect env ws_url max_attempts err st))
             = net_log st @ evs
           \<and> probed_handshakes ws_url evs
           \<and> length (filter is_handshake evs) \<le> nat max_attempts)
   \<and> (\<forall>k < nat max_attempts.
         (\<forall>i < k. probe_ok env (http_count st + i) \<and> handshake_fails env (ws_count st + i))
         \<and> \<not> probe_ok env (http_count st + k)
         \<longrightarrow> fst (attempt_websocket_reconnect env ws_url max_attempts err st)
               = Inl unreachable_error
             \<and> ws_count (snd (attempt_websocket_reconnect env ws_url max_attempts err st))
               = ws_count st + k)
   \<and> ((\<forall>i < nat max_attempts.
          probe_ok env (http_count st + i) \<and> handshake_fails env (ws_count st + i))
       \<longrightarrow> (\<exists>e. fst (attempt_websocket_reconnect env ws_url max_attempts err st)
                 = Inl (exhausted_error e)))
   \<and> (\<forall>k < nat max_attempts.
         (\<forall>i < k. probe_ok env (http_count st + i) \<and> handshake_fails env (ws_count st + i))
         \<and> probe_ok env (http_count st + k) \<and> ws_connect env (ws_count st + k) = None
         \<longrightarrow> fst (attempt_websocket_reconnect env ws_url max_attempts err st)
               = Inr (ws_count st + k)
             \<and> ws_count st + k
               \<in> open_socks (snd (attempt_websocket_reconnect env ws_url max_attempts err st)))
   \<and> exn_class_of unreachable_error = WebSocketConnectionClosedException
   \<and> exn_class_of (exhausted_error e0) = WebSocketConnectionClosedException
   \<and> (exn_class_of err = WebSocketConnectionClosedException
       \<longrightarrow> monitor_loop env ws_url prompt_id (RecvRaises err # frames) ws errs st =
           (case attempt_websocket_reconnect env ws_url (reconnect_attempts env) err
                   (st\<lparr>open_socks := open_socks st - {ws}\<rparr>) of
              (Inr new_ws, st') \<Rightarrow> monitor_loop env ws_url prompt_id frames new_ws errs st'
            | (Inl e, st') \<Rightarrow> Some (Inl e, ws, st')))
   \<and> (try_block env job_id workflow frames st = Some (TryRaise e1, ws1, st1, cs1)
         \<and> exn_class_of e1 = WebSocketConnectionClosedException
       \<longrightarrow> (\<exists>r. run_job env job_id workflow frames st = Some (r, finally_close ws1 st1, cs1)
                \<and> is_error_result r))
   \<and> (run_job env job_id workflow frames st = Some (r2, st2, cs2)
       \<longrightarrow> (\<exists>evs. net_log st2 = net_log st @ evs
                  \<and> same_url (ws_url_of (client_id env)) evs))"
proof -
  let ?run = "attempt_websocket_reconnect env ws_url max_attempts err st"
  have run: "?run = reconnect_loop env ws_url (nat max_attempts) err st"
    by (simp add: attempt_websocket_reconnect_def)
  have a: "\<exists>evs. net_log (snd ?run) = net_log st @ evs \<and> probed_handshakes ws_url evs
           \<and> length (filter is_handshake evs) \<le> nat max_attempts"
    using reconnect_loop_log [of env ws_url "nat max_attempts" err st "fst ?run" "snd ?run"] run
    by auto
  have b: "fst ?run = Inl unreachable_error \<and> ws_count (snd ?run) = ws_count st + k"
    if "k < nat max_attempts"
      "\<forall>i < k. probe_ok env (http_count st + i) \<and> handshake_fails env (ws_count st + i)"
      "\<not> probe_ok env (http_count st + k)" for k
    using reconnect_abandoned [of k "nat max_attempts" env st ws_url err] that run
    by (simp add: after_rounds_def)
  have c: "\<exists>e. fst ?run = Inl (exhausted_error e)"
    if "\<forall>i < nat max_attempts.
          probe_ok env (http_count st + i) \<and> handshake_fails env (ws_count st + i)"
    using reconnect_exhausted [of "nat max_attempts" env st ws_url err] that run by auto
  have d: "fst ?run = Inr (ws_count st + k) \<and> ws_count st + k \<in> open_socks (snd ?run)"
    if "k < nat max_attempts"
      "\<forall>i < k. probe_ok env (http_count st + i) \<and> handshake_fails env (ws_count st + i)"
      "probe_ok env (http_count st + k)" "ws_connect env (ws_count st + k) = None" for k
    using reconnect_succeeds [of k "nat max_attempts" env st ws_url err] that run
    by (simp add: after_rounds_def)
  have e: "exn_class_of unreachable_error = WebSocketConnectionClosedException"
    "exn_class_of (exhausted_error e0) = WebSocketConnectionClosedException"
    by (simp_all add: unreachable_error_def exhausted_error_def)
  have f: "\<exists>r. run_job env job_id workflow frames st = Some (r, finally_close ws1 st1, cs1)
                \<and> is_error_result r"
    if "try_block env job_id workflow frames st = Some (TryRaise e1, ws1, st1, cs1)"
      "exn_class_of e1 = WebSocketConnectionClosedException"
    using run_job_raise [OF that(1)] connection_lost_is_error [OF that(2)] by blast
  have g: "\<exists>evs. net_log st2 = net_log st @ evs \<and> same_url (ws_url_of (client_id env)) evs"
    if "run_job env job_id workflow frames st = Some (r2, st2, cs2)"
    using run_job_log [OF that] .
  from a b c d e f g monitor_loop_closed [of err env ws_url prompt_id frames ws errs st]
  show ?thesis by blast
qed




text \<open>Reconnects on the sample engine: the second handshake succeeds; the engine is down;
  every handshake is refused; the loop resumes after a reconnect; a job whose reconnects
  are all refused fails; a job that reconnects once keeps its URL.\<close>

theorem websocket_reconnect_protocol_witness:
  "(fst (attempt_websocket_reconnect
           (sample_env\<lparr>ws_connect := (\<lambda>n. if n = 1 then None else Some refused)\<rparr>)
           (ws_url_of ''c1'') 5 closed_by_peer net0) = Inr 1
    \<and> 1 \<in> open_socks (snd (attempt_websocket_reconnect
           (sample_env\<lparr>ws_connect := (\<lambda>n. if n = 1 then None else Some refused)\<rparr>)
           (ws_url_of ''c1'') 5 closed_by_peer net0)))
   \<and> (fst (attempt_websocket_reconnect (sample_env\<lparr>http_get := (\<lambda>url n. Status 503)\<rparr>)
           (ws_url_of ''c1'') 5 closed_by_peer net0) = Inl unreachable_error
      \<and> ws_count (snd (attempt_websocket_reconnect
           (sample_env\<lparr>http_get := (\<lambda>url n. Status 503)\<rparr>)
           (ws_url_of ''c1'') 5 closed_by_peer net0)) = 0)
   \<and> (\<exists>e. fst (attempt_websocket_reconnect (sample_env\<lparr>ws_connect := (\<lambda>n. Some refused)\<rparr>)
           (ws_url_of ''c1'') 5 closed_by_peer net0) = Inl (exhausted_error e))
   \<and> monitor_loop (sample_env\<lparr>ws_connect := (\<lambda>n. if n = 1 then None else Some refused)\<rparr>)
        (ws_url_of ''c1'') (PStr ''p1'') [RecvRaises closed_by_peer, RecvStr ''finished''] 7 []
        net0
      = Some (Inr (True, []), 1,
              \<lparr>http_count = 2, ws_count = 2, open_socks = {1},
                 net_log = [HttpGet root_url, WsConnect (ws_url_of ''c1''),
                            HttpGet root_url, WsConnect (ws_url_of ''c1'')]\<rparr>)
   \<and> (\<exists>r st cs.
         run_job (sample_env\<lparr>ws_connect := (\<lambda>n. if n = 0 then None else Some refused)\<rparr>)
           ''job1'' (PDict []) [RecvRaises closed_by_peer] net0 = Some (r, st, cs)
         \<and> is_error_result r)
   \<and> (\<exists>evs. net_log (fst (snd (the
           (run_job (sample_env\<lparr>ws_connect := (\<lambda>n. if n = 1 then Some refused else None)\<rparr>)
              ''job1'' (PDict []) [RecvRaises closed_by_peer, RecvStr ''finished''] net0))))
         = net_log net0 @ evs
       \<and> same_url (ws_url_of ''c1'') evs)"
proof -
  let ?flaky = "sample_env\<lparr>ws_connect := (\<lambda>n. if n = 1 then None else Some refused)\<rparr>"
  let ?dead = "sample_env\<lparr>http_get := (\<lambda>url n. Status 503)\<rparr>"
  let ?never = "sample_env\<lparr>ws_connect := (\<lambda>n. Some refused)\<rparr>"
  let ?refusing = "sample_env\<lparr>ws_connect := (\<lambda>n. if n = 0 then None else Some refused)\<rparr>"
  let ?hiccup = "sample_env\<lparr>ws_connect := (\<lambda>n. if n = 1 then Some refused else None)\<rparr>"
  let ?url = "ws_url_of ''c1''"
  have catches: "reconnect_catches (exn_class_of refused)"
    by (simp add: refused_def reconnect_catches_def isa_OSError_def)
  have ok: "probe_ok sample_env n" "probe_ok ?flaky n" "probe_ok ?never n" for n
    by (simp_all add: probe_ok_def sample_env_def)
  have h1: "(1::nat) < nat 5
      \<and> ((\<forall>i < 1. probe_ok ?flaky (http_count net0 + i)
                  \<and> handshake_fails ?flaky (ws_count net0 + i))
          \<and> probe_ok ?flaky (http_count net0 + 1)
          \<and> ws_connect ?flaky (ws_count net0 + 1) = None)"
    using catches ok by (simp add: handshake_fails_def net0_def)
  have h2: "(0::nat) < nat 5
      \<and> ((\<forall>i < 0. probe_ok ?dead (http_count net0 + i)
                  \<and> handshake_fails ?dead (ws_count net0 + i))
          \<and> \<not> probe_ok ?dead (http_count net0 + 0))"
    by (simp add: probe_ok_def)
  have h3: "\<forall>i < nat 5. probe_ok ?never (http_count net0 + i)
                  \<and> handshake_fails ?never (ws_count net0 + i)"
    using catches ok by (simp add: handshake_fails_def)
  have h4: "exn_class_of closed_by_peer = WebSocketConnectionClosedException"
    by (simp add: closed_by_peer_def)
  let ?tb = "try_block ?refusing ''job1'' (PDict []) [RecvRaises closed_by_peer] net0"
  have h5: "?tb = Some (TryRaise (exhausted_error refused), 0, fst (snd (snd (the ?tb))),
                        snd (snd (snd (the ?tb))))
            \<and> exn_class_of (exhausted_error refused) = WebSocketConnectionClosedException"
    by code_simp
  let ?rj = "run_job ?hiccup ''job1'' (PDict []) [RecvRaises closed_by_peer, RecvStr ''finished'']
               net0"
  have h6: "?rj = Some (fst (the ?rj), fst (snd (the ?rj)), snd (snd (the ?rj)))"
    by code_simp
  note proto = websocket_reconnect_protocol
  note c2 = proto [THEN conjunct2, THEN conjunct1, rule_format]
  note c3 = proto [THEN conjunct2, THEN conjunct2, THEN conjunct1, rule_format]
  note c4 = proto [THEN conjunct2, THEN conjunct2, THEN conjunct2, THEN conjunct1, rule_format]
  note c7 = proto [THEN conjunct2, THEN conjunct2, THEN conjunct2, THEN conjunct2,
      THEN conjunct2, THEN conjunct2, THEN conjunct1, rule_format]
  note c8 = proto [THEN conjunct2, THEN conjunct2, THEN conjunct2, THEN conjunct2,
      THEN conjunct2, THEN conjunct2, THEN conjunct2, THEN conjunct1, rule_format]
  note c9 = proto [THEN conjunct2, THEN conjunct2, THEN conjunct2, THEN conjunct2,
      THEN conjunct2, THEN conjunct2, THEN conjunct2, THEN conjunct2, rule_format]
  have n0: "ws_count net0 = 0" "open_socks net0 = {}" "net_log net0 = []"
    by (simp_all add: net0_def)
  have w1: "fst (attempt_websocket_reconnect ?flaky ?url 5 closed_by_peer net0)
        = Inr (ws_count net0 + 1)
      \<and> ws_count net0 + 1
        \<in> open_socks (snd (attempt_websocket_reconnect ?flaky ?url 5 closed_by_peer net0))"
    using h1 by (intro c4) blast+
  have w2: "fst (attempt_websocket_reconnect ?dead ?url 5 closed_by_peer net0)
        = Inl unreachable_error
      \<and> ws_count (snd (attempt_websocket_reconnect ?dead ?url 5 closed_by_peer net0))
        = ws_count net0 + 0"
    using h2 by (intro c2) blast+
  have w3: "\<exists>e. fst (attempt_websocket_reconnect ?never ?url 5 closed_by_peer net0)
        = Inl (exhausted_error e)"
    using h3 by (intro c3) blast+
  have "monitor_loop ?flaky ?url (PStr ''p1'')
         [RecvRaises closed_by_peer, RecvStr ''finished''] 7 [] net0
       = (case attempt_websocket_reconnect ?flaky ?url (reconnect_attempts ?flaky)
                 closed_by_peer (net0\<lparr>open_socks := open_socks net0 - {7}\<rparr>) of
            (Inr new_ws, st') \<Rightarrow>
              monitor_loop ?flaky ?url (PStr ''p1'') [RecvStr ''finished''] new_ws [] st'
          | (Inl e, st') \<Rightarrow> Some (Inl e, 7, st'))"
    by (rule c7 [OF h4])
  also have "\<dots> = Some (Inr (True, []), 1,
              \<lparr>http_count = 2, ws_count = 2, open_socks = {1},
                 net_log = [HttpGet root_url, WsConnect (ws_url_of ''c1''),
                            HttpGet root_url, WsConnect (ws_url_of ''c1'')]\<rparr>)"
    by code_simp
  finally have w4: "monitor_loop ?flaky ?url (PStr ''p1'')
         [RecvRaises closed_by_peer, RecvStr ''finished''] 7 [] net0
       = Some (Inr (True, []), 1,
              \<lparr>http_count = 2, ws_count = 2, open_socks = {1},
                 net_log = [HttpGet root_url, WsConnect (ws_url_of ''c1''),
                            HttpGet root_url, WsConnect (ws_url_of ''c1'')]\<rparr>)" .
  from c8 [OF h5] have w5: "\<exists>r st cs.
         run_job ?refusing ''job1'' (PDict []) [RecvRaises closed_by_peer] net0
           = Some (r, st, cs) \<and> is_error_result r"
    by blast
  have cid: "client_id ?hiccup = ''c1''" by (simp add: sample_env_def)
  from c9 [OF h6] have w6: "\<exists>evs. net_log (fst (snd (the ?rj))) = net_log net0 @ evs
       \<and> same_url (ws_url_of ''c1'') evs"
    unfolding cid .
  from w1 [unfolded n0] w2 [unfolded n0] have w12:
    "fst (attempt_websocket_reconnect ?flaky ?url 5 closed_by_peer net0) = Inr 1"
    "1 \<in> open_socks (snd (attempt_websocket_reconnect ?flaky ?url 5 closed_by_peer net0))"
    "fst (attempt_websocket_reconnect ?dead ?url 5 closed_by_peer net0) = Inl unreachable_error"
    "ws_count (snd (attempt_websocket_reconnect ?dead ?url 5 closed_by_peer net0)) = 0"
    by simp_all
  show ?thesis
    by (intro conjI w12 w3 w4 w5 w6)
qed

section \<open>The handler's exits and its result\<close>

lemma check_server_loop_socks:
  "check_server_loop env url n st = (r, st') \<Longrightarrow> open_socks st' = open_socks st"
proof (induction n arbitrary: st)
  case 0
  then show ?case by simp
next
  case (Suc n)
  let ?st' = "st\<lparr>http_count := Suc (http_count st), net_log := net_log st @ [HttpGet url]\<rparr>"
  consider (stop) "st' = ?st'" | (go) "check_server_loop env url n ?st' = (r, st')"
    using Suc.prems
    by (auto simp: do_http_get_def split: http_reply.splits if_splits)
  then show ?case
  proof cases
    case stop
    then show ?thesis by simp
  next
    case go
    from Suc.IH [OF go] show ?thesis by simp
  qed
qed

lemma handler_cases:
  assumes "handler env job_id job_input frames st = Some (r, st', cs)"
  obtains (early) "open_socks st' = open_socks st"
  | (job) workflow st1 res where "open_socks st1 = open_socks st"
      "run_job env job_id workflow frames st1 = Some (res, st', cs)"
proof -
  obtain c st1 where c: "check_server env root_url COMFY_API_AVAILABLE_MAX_RETRIES st = (c, st1)"
    by (cases "check_server env root_url COMFY_API_AVAILABLE_MAX_RETRIES st")
  then have st1: "open_socks st1 = open_socks st"
    using check_server_loop_socks by (simp add: check_server_def)
  from assms have "st' = st \<or> st' = st1
      \<or> (\<exists>workflow res. run_job env job_id workflow frames st1 = Some (res, st', cs))"
    unfolding handler_def c
    by (auto split: sum.splits prod.splits option.splits bool.splits if_splits)
  with st1 early job show ?thesis by blast
qed

lemma handler_socks:
  assumes "handler env job_id job_input frames st = Some (r, st', cs)" and "open_socks st = {}"
  shows "open_socks st' = {}"
  using assms(1)
proof (cases rule: handler_cases)
  case early
  with assms(2) show ?thesis by simp
next
  case (job workflow st1 res)
  from run_job_socks [OF job(2)] job(1) assms(2) show ?thesis by simp
qed

lemma monitor_loop_open:
  "monitor_loop env url pid frames ws errs st = Some (Inr x, ws', st')
   \<Longrightarrow> open_socks st = {ws} \<Longrightarrow> open_socks st' = {ws'}"
proof (induction frames arbitrary: ws st)
  case Nil
  then show ?case by simp
next
  case (Cons f frames)
  from Cons.prems(1) show ?case
  proof (cases rule: monitor_loop_step_cases)
    case continue
    from Cons.IH [OF continue Cons.prems(2)] show ?thesis .
  next
    case completed
    with Cons.prems(2) show ?thesis by simp
  next
    case (failed m)
    with Cons.prems(2) show ?thesis by simp
  next
    case (raised e)
    then show ?thesis by simp
  next
    case (reconnected e new_ws st1)
    from reconnect_loop_socks [of env url "nat (reconnect_attempts env)" e
        "st\<lparr>open_socks := open_socks st - {ws}\<rparr>" "Inr new_ws" st1] reconnected(1)
    have "open_socks st1 = {new_ws}" using Cons.prems(2)
      by (auto simp: attempt_websocket_reconnect_def)
    from Cons.IH [OF reconnected(2) this] show ?thesis .
  next
    case (lost e e' st1)
    then show ?thesis by simp
  qed
qed

lemma try_block_end_open:
  assumes "try_block env job_id workflow frames st = Some (TryEnd, ws, st', cs)"
    and "open_socks st = {}"
  shows "open_socks st' = {ws}"
proof -
  from assms(1) obtain ws0 st1 pid errs
    where c: "do_ws_connect env (ws_url_of (client_id env)) st = (Inr ws0, st1)"
      and m: "monitoring env (ws_url_of (client_id env)) pid frames ws0 st1
              = Some (Inr errs, ws, st')"
    by (auto simp: try_block_def split: sum.splits prod.splits option.splits)
  from m obtain x where l: "monitor_loop env (ws_url_of (client_id env)) pid frames ws0 [] st1
              = Some (Inr x, ws, st')"
    by (auto simp: monitoring_def split: sum.splits prod.splits option.splits)
  from do_ws_connect_facts [OF c] assms(2) have "open_socks st1 = {ws0}" by simp
  from monitor_loop_open [OF l this] show ?thesis .
qed

text \<open>
  C5. Whatever the handler returns, and whatever exception leaves it, no websocket
  connection of the job is open when it does: a handler that starts with no connection
  ends with none. This holds for the part from the \<open>try\<close> on as well, and when the \<open>try\<close>
  block runs to its end the connection is still open there, so it is the \<open>finally\<close> clause
  that closes it.
\<close>

theorem websocket_closed_on_every_exit:
  "(handler env job_id job_input frames st = Some (r, st', cs) \<and> open_socks st = {}
      \<longrightarrow> open_socks st' = {})
   \<and> (run_job env job_id workflow frames st = Some (r1, st1, cs1) \<and> open_socks st = {}
      \<longrightarrow> open_socks st1 = {})
   \<and> (try_block env job_id workflow frames st = Some (TryEnd, ws, st2, cs2)
       \<and> open_socks st = {}
      \<longrightarrow> open_socks st2 = {ws} \<and> open_socks (finally_close ws st2) = {})"
  using handler_socks [of env job_id job_input frames st r st' cs]
    run_job_socks [of env job_id workflow frames st r1 st1 cs1]
    try_block_end_open [of env job_id workflow frames st ws st2 cs2]
  by (auto simp: finally_close_def)


text \<open>A job that succeeds, a job whose reconnects are all refused, and the \<open>try\<close> block of a
  job whose execution fails.\<close>

theorem websocket_closed_on_every_exit_witness:
  "(\<exists>r st cs. handler sample_env ''job1'' sample_job [RecvStr ''status'', RecvStr ''finished'']
                  net0 = Some (Inr r, st, cs)
               \<and> \<not> is_error_result r \<and> open_socks st = {})
   \<and> (\<exists>r st cs.
         run_job (sample_env\<lparr>ws_connect := (\<lambda>n. if n = 0 then None else Some refused)\<rparr>)
           ''job1'' (PDict []) [RecvRaises closed_by_peer] net0 = Some (r, st, cs)
         \<and> is_error_result r \<and> open_socks st = {})
   \<and> (\<exists>st cs. try_block sample_env ''job1'' (PDict []) [RecvStr ''failed''] net0
                 = Some (TryEnd, 0, st, cs)
              \<and> open_socks st = {0} \<and> open_socks (finally_close 0 st) = {})"
proof -
  let ?refusing = "sample_env\<lparr>ws_connect := (\<lambda>n. if n = 0 then None else Some refused)\<rparr>"
  let ?h = "handler sample_env ''job1'' sample_job [RecvStr ''status'', RecvStr ''finished''] net0"
  let ?rj = "run_job ?refusing ''job1'' (PDict []) [RecvRaises closed_by_peer] net0"
  let ?tb = "try_block sample_env ''job1'' (PDict []) [RecvStr ''failed''] net0"
  note closed = websocket_closed_on_every_exit
  have h1: "?h = Some (fst (the ?h), fst (snd (the ?h)), snd (snd (the ?h)))
            \<and> open_socks net0 = {}"
    by code_simp
  have r1: "fst (the ?h) = Inr (projr (fst (the ?h)))
            \<and> \<not> is_error_result (projr (fst (the ?h)))"
    by code_simp
  have h2: "?rj = Some (fst (the ?rj), fst (snd (the ?rj)), snd (snd (the ?rj)))
            \<and> open_socks net0 = {}"
    by code_simp
  have r2: "is_error_result (fst (the ?rj))"
    by code_simp
  have h3: "?tb = Some (TryEnd, 0, fst (snd (snd (the ?tb))), snd (snd (snd (the ?tb))))
            \<and> open_socks net0 = {}"
    by code_simp
  from closed [THEN conjunct1, rule_format, OF h1]
  have w1: "open_socks (fst (snd (the ?h))) = {}" .
  from closed [THEN conjunct2, THEN conjunct1, rule_format, OF h2]
  have w2: "open_socks (fst (snd (the ?rj))) = {}" .
  from closed [THEN conjunct2, THEN conjunct2, rule_format, OF h3]
  have w3: "open_socks (fst (snd (snd (the ?tb)))) = {0}
            \<and> open_socks (finally_close 0 (fst (snd (snd (the ?tb))))) = {}" .
  from h1 r1 w1 have c1: "\<exists>r st cs. ?h = Some (Inr r, st, cs)
               \<and> \<not> is_error_result r \<and> open_socks st = {}"
    by metis
  from h2 r2 w2 have c2: "\<exists>r st cs. ?rj = Some (r, st, cs)
         \<and> is_error_result r \<and> open_socks st = {}"
    by metis
  from h3 w3 have c3: "\<exists>st cs. ?tb = Some (TryEnd, 0, st, cs)
              \<and> open_socks st = {0} \<and> open_socks (finally_close 0 st) = {}"
    by metis
  from c1 c2 c3 show ?thesis by (intro conjI)
qed














lemma run_job_end:
  "try_block env job_id workflow frames st = Some (TryEnd, ws, st', cs)
   \<Longrightarrow> run_job env job_id workflow frames st
        = Some (assemble (c_output cs) (c_errors cs), finally_close ws st', cs)"
  by (simp add: run_job_def)

text \<open>
  C2. The result assembled from the published artifacts and the recorded warnings: with no
  artifact and at least one warning it is the error "Job processing failed" with the
  warnings as details; with no artifact and no warning it is \<open>success_no_media\<close> with an empty
  media list; with at least one artifact it is not an error and carries the artifacts as
  \<open>media\<close>, warnings or not. A run of the handler whose \<open>try\<close> block reaches its end returns
  exactly this result.
\<close>

theorem result_assembly:
  "(output_data = [] \<and> errs \<noteq> []
      \<longrightarrow> assemble output_data errs
          = PDict [(''error'', PStr ''Job processing failed''),
                   (''details'', PList (map PStr errs))])
   \<and> (output_data = [] \<and> errs = []
      \<longrightarrow> assemble output_data errs
          = PDict [(''status'', PStr ''success_no_media''), (''media'', PList [])])
   \<and> (output_data \<noteq> []
      \<longrightarrow> \<not> is_error_result (assemble output_data errs)
        \<and> py_get (assemble output_data errs) ''media'' = Inr (PList output_data))
   \<and> (try_block env job_id workflow frames st = Some (TryEnd, ws, st', cs)
      \<longrightarrow> run_job env job_id workflow frames st
          = Some (assemble (c_output cs) (c_errors cs), finally_close ws st', cs))"
  using run_job_end [of env job_id workflow frames st ws st' cs]
  by (auto simp: assemble_def is_error_result_def py_get_def)

text \<open>The three outcomes, and a run of the sample job.\<close>

theorem result_assembly_witness:
  "assemble [] [''No outputs found in history for prompt p1.'']
     = PDict [(''error'', PStr ''Job processing failed''),
              (''details'', PList (map PStr [''No outputs found in history for prompt p1.'']))]
   \<and> assemble [] [] = PDict [(''status'', PStr ''success_no_media''), (''media'', PList [])]
   \<and> (\<not> is_error_result (assemble [PDict [(''filename'', PStr ''a.png'')]] [''a warning''])
      \<and> py_get (assemble [PDict [(''filename'', PStr ''a.png'')]] [''a warning'']) ''media''
        = Inr (PList [PDict [(''filename'', PStr ''a.png'')]]))
   \<and> (\<exists>ws st cs. run_job sample_env ''job1'' (PDict []) [RecvStr ''finished''] net0
         = Some (assemble (c_output cs) (c_errors cs), finally_close ws st, cs))"
proof -
  let ?tb = "try_block sample_env ''job1'' (PDict []) [RecvStr ''finished''] net0"
  note asm = result_assembly
  have h1: "([]::pyval list) = [] \<and> [''No outputs found in history for prompt p1.''] \<noteq> []"
    by simp
  have h2: "([]::pyval list) = [] \<and> ([]::string list) = []" by simp
  have h3: "[PDict [(''filename'', PStr ''a.png'')]] \<noteq> []" by simp
  have h4: "?tb = Some (TryEnd, fst (snd (the ?tb)), fst (snd (snd (the ?tb))),
                        snd (snd (snd (the ?tb))))"
    by code_simp
  from asm [THEN conjunct1, rule_format, OF h1]
  have w1: "assemble [] [''No outputs found in history for prompt p1.'']
     = PDict [(''error'', PStr ''Job processing failed''),
              (''details'', PList (map PStr [''No outputs found in history for prompt p1.'']))]" .
  from asm [THEN conjunct2, THEN conjunct1, rule_format, OF h2]
  have w2: "assemble [] [] = PDict [(''status'', PStr ''success_no_media''), (''media'', PList [])]" .
  from asm [THEN conjunct2, THEN conjunct2, THEN conjunct1, rule_format, OF h3]
  have w3: "\<not> is_error_result (assemble [PDict [(''filename'', PStr ''a.png'')]] [''a warning''])
      \<and> py_get (assemble [PDict [(''filename'', PStr ''a.png'')]] [''a warning'']) ''media''
        = Inr (PList [PDict [(''filename'', PStr ''a.png'')]])" .
  from asm [THEN conjunct2, THEN conjunct2, THEN conjunct2, rule_format, OF h4]
  have w4: "\<exists>ws st cs. run_job sample_env ''job1'' (PDict []) [RecvStr ''finished''] net0
         = Some (assemble (c_output cs) (c_errors cs), finally_close ws st, cs)"
    by blast
  from w1 w2 w3 [THEN conjunct1] w3 [THEN conjunct2] w4 show ?thesis by (intro conjI)
qed

section \<open>Collecting the artifacts\<close>

lemma process_image_temp:
  assumes "is_temp image_info"
  shows "process_image env job_id node_id image_info cs = (None, cs)"
proof -
  from assms obtain d where d: "image_info = PDict d"
    by (cases image_info) (auto simp: is_temp_def py_get_def)
  with assms have "py_get image_info ''type'' = Inr (PStr ''temp'')"
    by (simp add: is_temp_def)
  with d show ?thesis
    by (simp add: process_image_def py_get_def py_get_default_def)
qed

lemma process_images_filter:
  "process_images env job_id node_id image_infos cs
   = process_images env job_id node_id (filter (\<lambda>i. \<not> is_temp i) image_infos) cs"
proof (induction image_infos arbitrary: cs)
  case Nil
  then show ?case by simp
next
  case (Cons i image_infos)
  show ?case
  proof (cases "is_temp i")
    case True
    with Cons show ?thesis by (simp add: process_image_temp)
  next
    case False
    with Cons show ?thesis by (simp split: prod.splits option.splits)
  qed
qed

lemma fetches_extend_refl: "fetches_extend cs cs"
  by (simp add: fetches_extend_def)

lemma fetches_extend_trans:
  "fetches_extend a b \<Longrightarrow> fetches_extend b c \<Longrightarrow> fetches_extend a c"
  by (auto simp: fetches_extend_def)

lemma fetches_extend_same: "c_fetches cs' = c_fetches cs \<Longrightarrow> fetches_extend cs cs'"
  by (simp add: fetches_extend_def)

lemma s3_except_fetches: "c_fetches (s3_except env filename e cs) = c_fetches cs"
  by (simp add: s3_except_def Let_def split: option.splits)

lemma publish_s3_fetches:
  "c_fetches (publish_s3 env job_id filename ext image_bytes cs) = c_fetches cs"
  by (simp add: publish_s3_def Let_def s3_except_fetches split: option.splits sum.splits prod.splits)

lemma publish_inline_fetches: "c_fetches (publish_inline filename image_bytes cs) = c_fetches cs"
  by (simp add: publish_inline_def)

lemma get_image_data_fetches:
  "img_type \<noteq> PStr ''temp'' \<Longrightarrow> get_image_data env filename subfolder img_type cs = (b, cs')
   \<Longrightarrow> fetches_extend cs cs'"
  by (auto simp: get_image_data_def fetches_extend_def)

lemma process_image_fetches:
  assumes "process_image env job_id node_id image_info cs = (r, cs')"
  shows "fetches_extend cs cs'"
proof -
  consider (same) "cs' = cs" | (warn) w where "cs' = cs\<lparr>c_errors := w\<rparr>"
    | (fetch) filename subfolder img_type b cs1 where "img_type \<noteq> PStr ''temp''"
        "get_image_data env filename subfolder img_type cs = (b, cs1)"
        "c_fetches cs' = c_fetches cs1"
    using assms
    by (auto simp: process_image_def publish_s3_fetches publish_inline_fetches
        split: sum.splits if_splits prod.splits option.splits)
  then show ?thesis
  proof cases
    case same
    then show ?thesis by (simp add: fetches_extend_refl)
  next
    case (warn w)
    then show ?thesis by (simp add: fetches_extend_same)
  next
    case (fetch filename subfolder img_type b cs1)
    from get_image_data_fetches [OF fetch(1,2)] fetch(3) show ?thesis
      by (simp add: fetches_extend_def)
  qed
qed

lemma process_images_fetches:
  "process_images env job_id node_id image_infos cs = (r, cs') \<Longrightarrow> fetches_extend cs cs'"
proof (induction image_infos arbitrary: cs)
  case Nil
  then show ?case by (simp add: fetches_extend_refl)
next
  case (Cons i image_infos)
  obtain r1 cs1 where 1: "process_image env job_id node_id i cs = (r1, cs1)"
    by (cases "process_image env job_id node_id i cs")
  show ?case
  proof (cases r1)
    case None
    with Cons.prems 1 have "process_images env job_id node_id image_infos cs1 = (r, cs')"
      by simp
    from fetches_extend_trans [OF process_image_fetches [OF 1] Cons.IH [OF this]]
    show ?thesis .
  next
    case (Some e)
    with Cons.prems 1 have "cs' = cs1" by simp
    with process_image_fetches [OF 1] show ?thesis by simp
  qed
qed

lemma process_node_fetches:
  assumes "process_node env job_id node_id node_output cs = (r, cs')"
  shows "fetches_extend cs cs'"
proof -
  from assms consider (same) "cs' = cs"
    | (images) image_infos r1 where
        "process_images env job_id node_id image_infos cs = (r1, cs')"
    by (auto simp: process_node_def split: sum.splits if_splits prod.splits option.splits)
  then show ?thesis
  proof cases
    case same
    then show ?thesis by (simp add: fetches_extend_refl)
  next
    case (images image_infos r1)
    from process_images_fetches [OF images] show ?thesis .
  qed
qed

lemma process_outputs_fetches:
  "process_outputs env job_id items cs = (r, cs') \<Longrightarrow> fetches_extend cs cs'"
proof (induction items arbitrary: cs)
  case Nil
  then show ?case by (simp add: fetches_extend_refl)
next
  case (Cons item items)
  obtain node_id node_output where item: "item = (node_id, node_output)" by (cases item)
  obtain r1 cs1 where 1: "process_node env job_id node_id node_output cs = (r1, cs1)"
    by (cases "process_node env job_id node_id node_output cs")
  show ?case
  proof (cases r1)
    case None
    with Cons.prems 1 item have "process_outputs env job_id items cs1 = (r, cs')" by simp
    from fetches_extend_trans [OF process_node_fetches [OF 1] Cons.IH [OF this]]
    show ?thesis .
  next
    case (Some e)
    with Cons.prems 1 item have "cs' = cs1" by simp
    with process_node_fetches [OF 1] show ?thesis by simp
  qed
qed

lemma collect_phase_fetches:
  "\<not> list_ex temp_request (c_fetches (snd (collect_phase env job_id prompt_id errs)))"
proof -
  obtain res cs where c: "collect_phase env job_id prompt_id errs = (res, cs)"
    by (cases "collect_phase env job_id prompt_id errs")
  then consider (init) errs' where "cs = init_cstate errs'"
    | (outputs) items errs' r where
        "process_outputs env job_id items (init_cstate errs') = (r, cs)"
    by (auto simp: collect_phase_def Let_def
        split: sum.splits if_splits prod.splits option.splits bool.splits)
  then have "\<not> list_ex temp_request (c_fetches cs)"
  proof cases
    case (init errs')
    then show ?thesis by (simp add: init_cstate_def)
  next
    case (outputs items errs' r)
    from process_outputs_fetches [OF outputs] show ?thesis
      by (auto simp: fetches_extend_def init_cstate_def)
  qed
  with c show ?thesis by simp
qed

lemma run_job_fetches:
  assumes "run_job env job_id workflow frames st = Some (r, st', cs)"
  shows "\<not> list_ex temp_request (c_fetches cs)"
proof -
  from assms obtain res ws st1 where "try_block env job_id workflow frames st = Some (res, ws, st1, cs)"
    by (auto simp: run_job_def split: option.splits prod.splits)
  then have "cs = init_cstate []
      \<or> (\<exists>pid errs res. collect_phase env job_id pid errs = (res, cs))"
    by (auto simp: try_block_def split: sum.splits prod.splits option.splits)
  then show ?thesis
  proof
    assume "cs = init_cstate []"
    then show ?thesis by (simp add: init_cstate_def)
  next
    assume "\<exists>pid errs res. collect_phase env job_id pid errs = (res, cs)"
    then obtain pid errs res where "collect_phase env job_id pid errs = (res, cs)" by blast
    with collect_phase_fetches [of env job_id pid errs] show ?thesis by simp
  qed
qed

text \<open>
  C6. An artifact descriptor whose \<open>type\<close> is \<open>temp\<close> changes nothing: no request is made
  for it, nothing is appended to the output media list and no warning is recorded, so the
  loop over a node's images gives the same state as on the list without its \<open>temp\<close>
  descriptors, whatever a fetch of them would return. No request to the \<open>/view\<close> endpoint
  made while collecting, and none made by a whole job, is for an artifact of kind \<open>temp\<close>.
\<close>

theorem temp_artifacts_excluded:
  "(is_temp image_info \<longrightarrow> process_image env job_id node_id image_info cs = (None, cs))
   \<and> process_images env job_id node_id image_infos cs
     = process_images env job_id node_id (filter (\<lambda>i. \<not> is_temp i) image_infos) cs
   \<and> \<not> list_ex temp_request (c_fetches (snd (collect_phase env job_id prompt_id errs)))
   \<and> (run_job env job_id workflow frames st = Some (r, st', cs')
      \<longrightarrow> \<not> list_ex temp_request (c_fetches cs'))"
  using process_image_temp [of image_info env job_id node_id cs]
    process_images_filter [of env job_id node_id image_infos cs]
    collect_phase_fetches [of env job_id prompt_id errs]
    run_job_fetches [of env job_id workflow frames st r st' cs']
  by blast

text \<open>The preview of the sample history, and the requests of the sample job.\<close>

theorem temp_artifacts_excluded_witness:
  "process_image sample_env ''job1'' ''9''
      (PDict [(''filename'', PStr ''b.png''), (''subfolder'', PStr []), (''type'', PStr ''temp'')])
      (init_cstate [])
     = (None, init_cstate [])
   \<and> (\<exists>r st cs. run_job sample_env ''job1'' (PDict []) [RecvStr ''finished''] net0
                  = Some (r, st, cs)
               \<and> c_fetches cs = [(PStr ''a.png'', PStr [], PStr ''output'')]
               \<and> \<not> list_ex temp_request (c_fetches cs))"
proof -
  let ?b = "PDict [(''filename'', PStr ''b.png''), (''subfolder'', PStr []), (''type'', PStr ''temp'')]"
  let ?rj = "run_job sample_env ''job1'' (PDict []) [RecvStr ''finished''] net0"
  note excl = temp_artifacts_excluded
  have h1: "is_temp ?b" by (simp add: is_temp_def py_get_def)
  have h2: "?rj = Some (fst (the ?rj), fst (snd (the ?rj)), snd (snd (the ?rj)))"
    by code_simp
  have f: "c_fetches (snd (snd (the ?rj))) = [(PStr ''a.png'', PStr [], PStr ''output'')]"
    by code_simp
  from excl [THEN conjunct1, rule_format, OF h1]
  have w1: "process_image sample_env ''job1'' ''9'' ?b (init_cstate []) = (None, init_cstate [])" .
  from excl [THEN conjunct2, THEN conjunct2, THEN conjunct2, rule_format, OF h2]
  have w2: "\<not> list_ex temp_request (c_fetches (snd (snd (the ?rj))))" .
  from h2 f w2 have c2: "\<exists>r st cs. ?rj = Some (r, st, cs)
               \<and> c_fetches cs = [(PStr ''a.png'', PStr [], PStr ''output'')]
               \<and> \<not> list_ex temp_request (c_fetches cs)"
    by metis
  from w1 c2 show ?thesis by (intro conjI)
qed

section \<open>Uploading the input media: properties\<close>

lemma upload_except_dict: "\<exists>msg. upload_except env (PDict d) e = Inr msg"
  by (simp add: upload_except_def py_get_default_def)

lemma upload_loop_dicts:
  "\<forall>m \<in> set items. \<exists>d. m = PDict d
   \<Longrightarrow> \<exists>responses upload_errors.
         upload_loop env i items rs es = Inr (responses, upload_errors)
         \<and> (upload_errors = [] \<longleftrightarrow>
              es = [] \<and> (\<forall>k < length items. \<exists>name. upload_try env (i + k) (items ! k) = Inr name))"
proof (induction items arbitrary: i rs es)
  case Nil
  then show ?case by simp
next
  case (Cons media items)
  then obtain d where d: "media = PDict d" by auto
  from Cons.prems have rest: "\<forall>m \<in> set items. \<exists>d. m = PDict d" by simp
  have shift: "(\<forall>k < length (media # items). \<exists>name. upload_try env (i + k) ((media # items) ! k) = Inr name)
      \<longleftrightarrow> (\<exists>name. upload_try env i media = Inr name)
          \<and> (\<forall>k < length items. \<exists>name. upload_try env (Suc i + k) (items ! k) = Inr name)"
    by (auto simp: less_Suc_eq_0_disj)
  show ?case
  proof (cases "upload_try env i media")
    case (Inr name)
    from Cons.IH [OF rest, of "Suc i" "rs @ [''Successfully uploaded '' @ str_of env name]" es]
    show ?thesis using Inr shift by auto
  next
    case (Inl e)
    from upload_except_dict [of env d e] d obtain msg
      where msg: "upload_except env media e = Inr msg" by auto
    from Cons.IH [OF rest, of "Suc i" rs "es @ [msg]"]
    show ?thesis using Inl msg shift by auto
  qed
qed

lemma upload_media_on_dict_items:
  assumes "items \<noteq> []" and "\<forall>m \<in> set items. \<exists>d. m = PDict d"
  shows "\<exists>status message details.
           upload_media env (PList items) = Inr (upload_report status message details)
           \<and> (status = ''error'' \<or> status = ''success'')
           \<and> (status = ''error'' \<longleftrightarrow>
                (\<exists>k < length items. \<exists>e. upload_try env k (items ! k) = Inl e))"
proof -
  from upload_loop_dicts [OF assms(2), of env 0 "[]" "[]"] obtain responses upload_errors
    where l: "upload_loop env 0 items [] [] = Inr (responses, upload_errors)"
      and e: "upload_errors = [] \<longleftrightarrow>
              (\<forall>k < length items. \<exists>name. upload_try env k (items ! k) = Inr name)"
    by auto
  have ne: "(\<exists>k < length items. \<exists>e. upload_try env k (items ! k) = Inl e)
        \<longleftrightarrow> upload_errors \<noteq> []"
  proof
    assume "\<exists>k < length items. \<exists>e. upload_try env k (items ! k) = Inl e"
    then obtain k x where "k < length items" "upload_try env k (items ! k) = Inl x" by blast
    then have "\<not> (\<forall>k < length items. \<exists>name. upload_try env k (items ! k) = Inr name)"
      by auto
    with e show "upload_errors \<noteq> []" by simp
  next
    assume "upload_errors \<noteq> []"
    with e obtain k where k: "k < length items"
      "\<forall>name. upload_try env k (items ! k) \<noteq> Inr name" by auto
    then obtain x where "upload_try env k (items ! k) = Inl x"
      by (cases "upload_try env k (items ! k)") auto
    with k show "\<exists>k < length items. \<exists>e. upload_try env k (items ! k) = Inl e" by blast
  qed
  show ?thesis
  proof (cases "upload_errors = []")
    case True
    with l assms(1)
    have "upload_media env (PList items)
          = Inr (upload_report ''success'' ''All media uploaded successfully'' responses)"
      by (simp add: upload_media_def py_len_def py_iter_def)
    moreover have "(''success'' = ''error'') \<longleftrightarrow>
        (\<exists>k < length items. \<exists>e. upload_try env k (items ! k) = Inl e)"
      using True ne by simp
    ultimately show ?thesis by blast
  next
    case False
    with l assms(1)
    have "upload_media env (PList items)
          = Inr (upload_report ''error'' ''Some media failed to upload'' upload_errors)"
      by (simp add: upload_media_def py_len_def py_iter_def)
    moreover have "(''error'' = ''error'') \<longleftrightarrow>
        (\<exists>k < length items. \<exists>e. upload_try env k (items ! k) = Inl e)"
      using False ne by simp
    ultimately show ?thesis by blast
  qed
qed

lemma upload_try_missing_type:
  "map_of d ''name'' = Some n \<Longrightarrow> map_of d ''media'' = Some m \<Longrightarrow> map_of d ''type'' = None
   \<Longrightarrow> upload_try env i (PDict d) = Inl (Exn KeyError ([CHR 0x27] @ ''type'' @ [CHR 0x27]))"
  by (simp add: upload_try_def py_subscript_def)

lemma upload_try_unknown_type:
  "map_of d ''name'' = Some n \<Longrightarrow> map_of d ''media'' = Some m \<Longrightarrow> map_of d ''type'' = Some t
   \<Longrightarrow> t \<noteq> PStr ''base64'' \<Longrightarrow> t \<noteq> PStr ''web'' \<Longrightarrow> t \<noteq> PStr ''s3''
   \<Longrightarrow> upload_try env i (PDict d)
       = Inl (Exn OtherException (''Unknown media type '' @ str_of env t))"
  by (simp add: upload_try_def py_subscript_def)

text \<open>
  C10 (the code at the failing input). The claim is that \<open>upload_media\<close> never raises on a
  list whose items pass validation. The string \<open>"name media"\<close> passes validation, because
  \<open>"name" in media\<close> is the substring test on a string, and so does the list
  \<open>["name", "media"]\<close>. On such an item \<open>media["name"]\<close> raises TypeError, the
  \<open>except Exception\<close> clause catches it and calls \<open>media.get('name', 'unknown')\<close>, and the
  AttributeError of that call leaves \<open>upload_media\<close> and the handler.
\<close>

theorem upload_media_raises_on_string_item:
  "validate_input ld (PDict [(''workflow'', PDict []), (''media'', PList [PStr ''name media''])])
     = Inr (Some (PDict [(''workflow'', PDict []), (''media'', PList [PStr ''name media''])]),
            None)
   \<and> upload_media env (PList [PStr ''name media''])
     = Inl (Exn AttributeError ''object has no attribute get'')
   \<and> upload_media env (PList [PList [PStr ''name'', PStr ''media'']])
     = Inl (Exn AttributeError ''object has no attribute get'')
   \<and> handler sample_env ''job1''
        (PDict [(''workflow'', PDict []), (''media'', PList [PStr ''name media''])])
        [RecvStr ''finished''] net0
     = Some (Inl (Exn AttributeError ''object has no attribute get''),
             \<lparr>http_count = 1, ws_count = 0, open_socks = {}, net_log = [HttpGet root_url]\<rparr>,
             init_cstate [])"
proof -
  have a: "validate_input ld (PDict [(''workflow'', PDict []), (''media'', PList [PStr ''name media''])])
     = Inr (Some (PDict [(''workflow'', PDict []), (''media'', PList [PStr ''name media''])]),
            None)"
    by (simp add: validate_input_def py_get_def py_contains_def)
  have b: "upload_media env (PList [PStr ''name media''])
     = Inl (Exn AttributeError ''object has no attribute get'')"
    by (simp add: upload_media_def py_len_def py_iter_def upload_try_def upload_except_def
        py_subscript_def py_get_default_def)
  have c: "upload_media env (PList [PList [PStr ''name'', PStr ''media'']])
     = Inl (Exn AttributeError ''object has no attribute get'')"
    by (simp add: upload_media_def py_len_def py_iter_def upload_try_def upload_except_def
        py_subscript_def py_get_default_def)
  have d: "handler sample_env ''job1''
        (PDict [(''workflow'', PDict []), (''media'', PList [PStr ''name media''])])
        [RecvStr ''finished''] net0
     = Some (Inl (Exn AttributeError ''object has no attribute get''),
             \<lparr>http_count = 1, ws_count = 0, open_socks = {}, net_log = [HttpGet root_url]\<rparr>,
             init_cstate [])"
    by code_simp
  from a b c d show ?thesis by (intro conjI)
qed

section \<open>Publishing to the object store: properties\<close>

lemma s3_except_records:
  "c_output (s3_except env filename e cs) = c_output cs"
  "c_errors (s3_except env filename e cs)
     = c_errors cs @ [''Error uploading '' @ str_of env filename @ '' to S3: '' @ str_of_exn e]"
  by (cases "c_temp_file_path cs"; simp add: s3_except_def Let_def)+

lemma s3_except_removes:
  "c_temp_file_path cs = Some path \<Longrightarrow> path \<notin> c_tmp_files (s3_except env filename e cs)"
  by (simp add: s3_except_def Let_def)

lemma publish_s3_cases:
  obtains (no_file) e where "tmp_create env (c_tmp_count cs) = Some e"
      "publish_s3 env job_id filename ext image_bytes cs
       = s3_except env filename e (cs\<lparr>c_tmp_count := Suc (c_tmp_count cs)\<rparr>)"
  | (no_write) e where "tmp_create env (c_tmp_count cs) = None"
      "tmp_write env (c_tmp_count cs) = Some e"
      "publish_s3 env job_id filename ext image_bytes cs
       = s3_except env filename e
           (cs\<lparr>c_tmp_count := Suc (c_tmp_count cs),
               c_tmp_files := insert (c_tmp_count cs, ext) (c_tmp_files cs)\<rparr>)"
  | (no_upload) e where "tmp_create env (c_tmp_count cs) = None"
      "tmp_write env (c_tmp_count cs) = None"
      "publish_s3 env job_id filename ext image_bytes cs
       = s3_except env filename e
           (cs\<lparr>c_tmp_count := Suc (c_tmp_count cs),
               c_tmp_files := insert (c_tmp_count cs, ext) (c_tmp_files cs),
               c_temp_file_path := Some (c_tmp_count cs, ext),
               c_uploads := Suc (c_uploads cs)\<rparr>)"
  | (published) s3_url file_key where "tmp_create env (c_tmp_count cs) = None"
      "tmp_write env (c_tmp_count cs) = None"
      "publish_s3 env job_id filename ext image_bytes cs
       = cs\<lparr>c_tmp_count := Suc (c_tmp_count cs),
              c_tmp_files := insert (c_tmp_count cs, ext) (c_tmp_files cs)
                               - {(c_tmp_count cs, ext)},
              c_temp_file_path := Some (c_tmp_count cs, ext),
              c_uploads := Suc (c_uploads cs),
              c_output := c_output cs
                @ [PDict [(''filename'', filename), (''type'', PStr ''s3_url''),
                          (''data'', PStr s3_url), (''s3_file_key'', PStr file_key)]]\<rparr>"
proof (cases "tmp_create env (c_tmp_count cs)")
  case (Some e)
  then have "publish_s3 env job_id filename ext image_bytes cs
       = s3_except env filename e (cs\<lparr>c_tmp_count := Suc (c_tmp_count cs)\<rparr>)"
    by (simp add: publish_s3_def)
  with Some no_file show ?thesis by blast
next
  case None
  show ?thesis
  proof (cases "tmp_write env (c_tmp_count cs)")
    case (Some e)
    with None have "publish_s3 env job_id filename ext image_bytes cs
       = s3_except env filename e
           (cs\<lparr>c_tmp_count := Suc (c_tmp_count cs),
               c_tmp_files := insert (c_tmp_count cs, ext) (c_tmp_files cs)\<rparr>)"
      by (simp add: publish_s3_def Let_def)
    with None Some no_write show ?thesis by blast
  next
    case w: None
    show ?thesis
    proof (cases "boto_upload_media env (c_uploads cs) job_id (c_tmp_count cs, ext)")
      case (Inl e)
      with None w have "publish_s3 env job_id filename ext image_bytes cs
       = s3_except env filename e
           (cs\<lparr>c_tmp_count := Suc (c_tmp_count cs),
               c_tmp_files := insert (c_tmp_count cs, ext) (c_tmp_files cs),
               c_temp_file_path := Some (c_tmp_count cs, ext),
               c_uploads := Suc (c_uploads cs)\<rparr>)"
        by (simp add: publish_s3_def Let_def)
      with None w no_upload show ?thesis by blast
    next
      case (Inr p)
      obtain s3_url file_key where p: "p = (s3_url, file_key)" by (cases p)
      with Inr None w have "publish_s3 env job_id filename ext image_bytes cs
       = cs\<lparr>c_tmp_count := Suc (c_tmp_count cs),
              c_tmp_files := insert (c_tmp_count cs, ext) (c_tmp_files cs)
                               - {(c_tmp_count cs, ext)},
              c_temp_file_path := Some (c_tmp_count cs, ext),
              c_uploads := Suc (c_uploads cs),
              c_output := c_output cs
                @ [PDict [(''filename'', filename), (''type'', PStr ''s3_url''),
                          (''data'', PStr s3_url), (''s3_file_key'', PStr file_key)]]\<rparr>"
        by (simp add: publish_s3_def Let_def)
      with None w published show ?thesis by blast
    qed
  qed
qed

lemma publish_s3_outcome:
  "(\<exists>item. c_output (publish_s3 env job_id filename ext image_bytes cs) = c_output cs @ [item]
           \<and> c_errors (publish_s3 env job_id filename ext image_bytes cs) = c_errors cs)
   \<or> (\<exists>warning. c_output (publish_s3 env job_id filename ext image_bytes cs) = c_output cs
           \<and> c_errors (publish_s3 env job_id filename ext image_bytes cs)
             = c_errors cs @ [warning])"
  by (cases rule: publish_s3_cases [of env cs job_id filename ext image_bytes])
    (simp_all add: s3_except_records)

lemma publish_s3_removes_written_file:
  assumes "tmp_create env (c_tmp_count cs) = None" and "tmp_write env (c_tmp_count cs) = None"
  shows "(c_tmp_count cs, ext)
         \<notin> c_tmp_files (publish_s3 env job_id filename ext image_bytes cs)"
proof (cases rule: publish_s3_cases [of env cs job_id filename ext image_bytes])
  case (no_file e)
  with assms show ?thesis by simp
next
  case (no_write e)
  with assms show ?thesis by simp
next
  case (no_upload e)
  then show ?thesis by (simp add: s3_except_removes)
next
  case (published s3_url file_key)
  then show ?thesis by simp
qed

text \<open>
  C8 (the code at the failing input). The claim is that the temporary file of an artifact is
  removed on every exit path of the publish step. When \<open>temp_file.write\<close> raises, the file
  exists but \<open>temp_file_path\<close> was not assigned, so the \<open>except\<close> clause removes nothing:
  the file \<open>(0, ".png")\<close> is still on disk after the publish step and after the handler has
  returned.
\<close>

theorem temp_file_left_when_write_fails:
  "c_tmp_files (publish_s3 (sample_env\<lparr>bucket_configured := True,
                                       tmp_write := (\<lambda>n. Some disk_full)\<rparr>)
                  ''job1'' (PStr ''a.png'') ''.png'' [1, 2, 3] (init_cstate []))
     = {(0, ''.png'')}
   \<and> handler (sample_env\<lparr>bucket_configured := True, tmp_write := (\<lambda>n. Some disk_full)\<rparr>)
        ''job1'' sample_job [RecvStr ''finished''] net0
     = Some (Inr (PDict [(''error'', PStr ''Job processing failed''),
                         (''details'',
                          PList [PStr ''Error uploading a.png to S3: No space left on device''])]),
             \<lparr>http_count = 1, ws_count = 1, open_socks = {},
                net_log = [HttpGet root_url, WsConnect (ws_url_of ''c1'')]\<rparr>,
             \<lparr>c_output = [],
                c_errors = [''Error uploading a.png to S3: No space left on device''],
                c_fetches = [(PStr ''a.png'', PStr [], PStr ''output'')],
                c_tmp_files = {(0, ''.png'')}, c_tmp_count = 1, c_uploads = 0,
                c_temp_file_path = None\<rparr>)"
  by code_simp

end
